theory Spec2Isabelle
  imports Main
begin

section \<open>Data model\<close>

text \<open>
  The module \<^verbatim>\<open>host.ts\<close> replaces operations of a TypeScript compiler host (and of a
  program) by wrappers. The wrapped operations, the functions of the \<^verbatim>\<open>typescript\<close>
  package, the ngcc processor and the path normaliser are collaborators from outside the
  module: they are parameters of the model. They act on a \<^emph>\<open>world\<close> \<open>'w\<close> (the file system,
  the host's own caches, what ngcc has already converted), which the model threads through
  every call in the order in which the source makes the calls. A call to a collaborator is
  taken to return; the one exception that the model follows is that of the path normaliser.
  The collaborators do not touch the two maps that the build tool hands to the augmentations.

  Values the module only passes on (compiler options, a redirected project reference, the
  module resolution cache, a language version, an error callback, a source file handle
  of the host) are opaque values of one type \<open>'v\<close>.
\<close>

datatype error = NormalizePathError string

text \<open>\<^verbatim>\<open>ts.ResolvedModule\<close>: the module reads the field \<^verbatim>\<open>resolvedFileName\<close> only.\<close>

record ResolvedModule =
  resolvedFileName :: string

text \<open>\<^verbatim>\<open>ts.ResolvedTypeReferenceDirective\<close>: the module reads none of its fields.\<close>

record ResolvedTypeReferenceDirective =
  primary :: bool
  directiveFileName :: "string option"

text \<open>What \<^verbatim>\<open>ngcc.processModule\<close> accepts as its second argument.\<close>

type_synonym resolution = "ResolvedModule + ResolvedTypeReferenceDirective"

text \<open>
  One entry per call that the module makes to a collaborator, with the arguments of the
  call site (the \<^verbatim>\<open>host\<close> argument, which is always the host itself, is left out).
  \<open>TsResolveTypeReferenceDirective\<close> has the four arguments that the source passes besides
  the host: name, containing file, options, redirected reference.
\<close>

datatype 'v call =
    BaseResolveModuleNames "string list" string 'v 'v 'v
  | TsResolveModuleName string string 'v "'v option" 'v
  | BaseResolveTypeReferenceDirectives "string list" string 'v 'v
  | TsResolveTypeReferenceDirective string string 'v 'v
  | NgccProcessModule string resolution
  | BaseGetSourceFile string 'v 'v "bool option" "'v list"

text \<open>
  The state on which the installed wrappers run: the world of the collaborators, the log of
  the calls made to them, and the two maps that the build tool owns and hands to the
  augmentations by reference (\<^verbatim>\<open>dependencies: Map<string, Set<string>>\<close> and
  \<^verbatim>\<open>cache\<close>).
\<close>

record ('w, 'v) state =
  world :: 'w
  calls :: "'v call list"
  dependencies :: "string \<rightharpoonup> string set"
  cache :: "string \<rightharpoonup> 'v"

text \<open>
  The capabilities of the base host that the module looks at. The two resolvers may be
  absent (\<^verbatim>\<open>if (host.resolveModuleNames)\<close>); \<^verbatim>\<open>getSourceFile\<close> is always there.
\<close>

record ('w, 'v) CompilerHost =
  resolveModuleNames ::
    "(string list \<Rightarrow> string \<Rightarrow> 'v \<Rightarrow> 'v \<Rightarrow> 'v \<Rightarrow> 'w \<Rightarrow> ResolvedModule option list \<times> 'w) option"
  resolveTypeReferenceDirectives ::
    "(string list \<Rightarrow> string \<Rightarrow> 'v \<Rightarrow> 'v \<Rightarrow> 'w
        \<Rightarrow> ResolvedTypeReferenceDirective option list \<times> 'w) option"
  getSourceFile ::
    "string \<Rightarrow> 'v \<Rightarrow> 'v \<Rightarrow> bool option \<Rightarrow> 'v list \<Rightarrow> 'w \<Rightarrow> 'v option \<times> 'w"

text \<open>
  The two functions of the \<^verbatim>\<open>typescript\<close> package that the fallbacks call; each stands for
  the call together with the field read that follows it (\<^verbatim>\<open>.resolvedModule\<close>,
  \<^verbatim>\<open>.resolvedTypeReferenceDirective\<close>). \<open>resolveModuleName\<close> takes name, containing file,
  options, module resolution cache and redirected reference.
\<close>

record ('w, 'v) ts =
  resolveModuleName ::
    "string \<Rightarrow> string \<Rightarrow> 'v \<Rightarrow> 'v option \<Rightarrow> 'v \<Rightarrow> 'w \<Rightarrow> ResolvedModule option \<times> 'w"
  resolveTypeReferenceDirective ::
    "string \<Rightarrow> string \<Rightarrow> 'v \<Rightarrow> 'v \<Rightarrow> 'w \<Rightarrow> ResolvedTypeReferenceDirective option \<times> 'w"

record 'w NgccProcessor =
  processModule :: "string \<Rightarrow> resolution \<Rightarrow> 'w \<Rightarrow> 'w"

text \<open>A source file of a program: \<^verbatim>\<open>SourceFile & { version?: string }\<close>.\<close>

record SourceFile =
  fileText :: string
  version :: "string option"

text \<open>
  Source files are objects that the versioner changes in place and that one enumeration
  may list more than once: a program's files live in a store, and an enumeration is a list
  of addresses.
\<close>

type_synonym files = "nat \<Rightarrow> SourceFile"

record 'v Program =
  getSourceFiles :: "'v list \<Rightarrow> files \<Rightarrow> nat list"

section \<open>Calls to collaborators, array map\<close>

text \<open>A call to a collaborator runs it on the world and notes the call in the log.\<close>

definition invoke :: "'v call \<Rightarrow> ('w \<Rightarrow> 'a \<times> 'w) \<Rightarrow> ('w, 'v) state \<Rightarrow> 'a \<times> ('w, 'v) state" where
  "invoke c f s =
     (case f (world s) of (r, w) \<Rightarrow> (r, s\<lparr>world := w, calls := calls s @ [c]\<rparr>))"

text \<open>\<^verbatim>\<open>Array.prototype.map\<close> with a callback that has effects: left to right.\<close>

fun arrayMap :: "('a \<Rightarrow> 's \<Rightarrow> 'b \<times> 's) \<Rightarrow> 'a list \<Rightarrow> 's \<Rightarrow> 'b list \<times> 's" where
  "arrayMap f [] s = ([], s)"
| "arrayMap f (x # xs) s =
     (case f x s of (y, s1) \<Rightarrow>
        (case arrayMap f xs s1 of (ys, s2) \<Rightarrow> (y # ys, s2)))"

text \<open>The same with a callback that may throw: the first exception ends the map.\<close>

fun arrayMapE ::
  "('a \<Rightarrow> 's \<Rightarrow> (error + 'b) \<times> 's) \<Rightarrow> 'a list \<Rightarrow> 's \<Rightarrow> (error + 'b list) \<times> 's" where
  "arrayMapE f [] s = (Inr [], s)"
| "arrayMapE f (x # xs) s =
     (case f x s of
        (Inl e, s1) \<Rightarrow> (Inl e, s1)
      | (Inr y, s1) \<Rightarrow>
          (case arrayMapE f xs s1 of
             (Inl e, s2) \<Rightarrow> (Inl e, s2)
           | (Inr ys, s2) \<Rightarrow> (Inr (y # ys), s2)))"

text \<open>\<^verbatim>\<open>result[0]\<close>: undefined when the array is empty.\<close>

definition firstResult :: "'a option list \<Rightarrow> 'a option" where
  "firstResult result = (case result of [] \<Rightarrow> None | r # _ \<Rightarrow> r)"

section \<open>augmentProgramWithVersioning\<close>

text \<open>
  The loop \<^verbatim>\<open>for (const file of files)\<close>; \<open>sha256hex\<close> stands for
  \<^verbatim>\<open>createHash('sha256').update(_).digest('hex')\<close>.
\<close>

fun versionFiles :: "(string \<Rightarrow> string) \<Rightarrow> nat list \<Rightarrow> files \<Rightarrow> files" where
  "versionFiles sha256hex [] fs = fs"
| "versionFiles sha256hex (file # rest) fs =
     versionFiles sha256hex rest
       (if version (fs file) = None
        then fs(file := (fs file)\<lparr>version := Some (sha256hex (fileText (fs file)))\<rparr>)
        else fs)"

text \<open>The new \<^verbatim>\<open>program.getSourceFiles\<close>.\<close>

definition augmentProgramWithVersioning ::
  "(string \<Rightarrow> string) \<Rightarrow> 'v Program \<Rightarrow> 'v list \<Rightarrow> files \<Rightarrow> nat list \<times> files" where
  "augmentProgramWithVersioning sha256hex program =
     (let baseGetSourceFiles = getSourceFiles program in
      (\<lambda>parameters fs.
         let files = baseGetSourceFiles parameters fs in
         (files, versionFiles sha256hex files fs)))"

section \<open>augmentHostWithDependencyCollection\<close>

text \<open>
  The body of \<^verbatim>\<open>if (result) { ... }\<close> once the containing file's path is normalised: add to
  the set of the key when the key has one, else set the key to a new singleton set.
\<close>

definition addDependency ::
  "string \<Rightarrow> string \<Rightarrow> (string \<rightharpoonup> string set) \<Rightarrow> (string \<rightharpoonup> string set)" where
  "addDependency containingFilePath fileName deps =
     (case deps containingFilePath of
        Some containingFileDependencies \<Rightarrow>
          deps(containingFilePath \<mapsto> insert fileName containingFileDependencies)
      | None \<Rightarrow> deps(containingFilePath \<mapsto> {fileName}))"

text \<open>The loop \<^verbatim>\<open>for (const result of results)\<close> of the wrapper of an existing resolver.\<close>

fun recordResults ::
  "string \<Rightarrow> ResolvedModule option list \<Rightarrow> (string \<rightharpoonup> string set)
     \<Rightarrow> (string \<rightharpoonup> string set)" where
  "recordResults containingFilePath [] deps = deps"
| "recordResults containingFilePath (result # results) deps =
     recordResults containingFilePath results
       (case result of
          Some r \<Rightarrow> addDependency containingFilePath (resolvedFileName r) deps
        | None \<Rightarrow> deps)"

text \<open>
  The new \<^verbatim>\<open>host.resolveModuleNames\<close>. \<open>normalizePath\<close> is imported from \<^verbatim>\<open>./path\<close>; it
  is a parameter, and it may throw (\<open>Inl\<close>). Nothing in the source catches: an exception
  ends the call, and what was changed before stays changed.
\<close>

definition augmentHostWithDependencyCollection ::
  "('w, 'v) ts \<Rightarrow> (string \<Rightarrow> error + string) \<Rightarrow> ('w, 'v) CompilerHost \<Rightarrow> 'v option
     \<Rightarrow> string list \<Rightarrow> string \<Rightarrow> 'v \<Rightarrow> 'v \<Rightarrow> 'v \<Rightarrow> ('w, 'v) state
     \<Rightarrow> (error + ResolvedModule option list) \<times> ('w, 'v) state" where
  "augmentHostWithDependencyCollection ts normalizePath host moduleResolutionCache =
     (case resolveModuleNames host of
        Some baseResolveModuleNames \<Rightarrow>
          (\<lambda>moduleNames containingFile reusedNames redirectedReference options s.
             case invoke
                    (BaseResolveModuleNames moduleNames containingFile reusedNames
                       redirectedReference options)
                    (baseResolveModuleNames moduleNames containingFile reusedNames
                       redirectedReference options) s of
               (results, s1) \<Rightarrow>
                 (case normalizePath containingFile of
                    Inl e \<Rightarrow> (Inl e, s1)
                  | Inr containingFilePath \<Rightarrow>
                      (Inr results,
                       s1\<lparr>dependencies :=
                            recordResults containingFilePath results (dependencies s1)\<rparr>)))
      | None \<Rightarrow>
          (\<lambda>moduleNames containingFile reusedNames redirectedReference options.
             arrayMapE
               (\<lambda>name s.
                  case invoke
                         (TsResolveModuleName name containingFile options
                            moduleResolutionCache redirectedReference)
                         (resolveModuleName ts name containingFile options
                            moduleResolutionCache redirectedReference) s of
                    (result, s1) \<Rightarrow>
                      (case result of
                         Some r \<Rightarrow>
                           (case normalizePath containingFile of
                              Inl e \<Rightarrow> (Inl e, s1)
                            | Inr containingFilePath \<Rightarrow>
                                (Inr result,
                                 s1\<lparr>dependencies :=
                                      addDependency containingFilePath (resolvedFileName r)
                                        (dependencies s1)\<rparr>))
                       | None \<Rightarrow> (Inr result, s1)))
               moduleNames))"

section \<open>augmentHostWithCaching\<close>

text \<open>\<^verbatim>\<open>!shouldCreateNewSourceFile\<close> holds for \<^verbatim>\<open>undefined\<close> and for \<^verbatim>\<open>false\<close>.\<close>

definition truthy :: "bool option \<Rightarrow> bool" where
  "truthy b = (b = Some True)"

text \<open>The new \<^verbatim>\<open>host.getSourceFile\<close>; the delegate is always called with \<^verbatim>\<open>true\<close>.\<close>

definition augmentHostWithCaching ::
  "('w, 'v) CompilerHost \<Rightarrow> string \<Rightarrow> 'v \<Rightarrow> 'v \<Rightarrow> bool option \<Rightarrow> 'v list \<Rightarrow> ('w, 'v) state
     \<Rightarrow> 'v option \<times> ('w, 'v) state" where
  "augmentHostWithCaching host =
     (let baseGetSourceFile = getSourceFile host in
      (\<lambda>fileName languageVersion onError shouldCreateNewSourceFile parameters s.
         if \<not> truthy shouldCreateNewSourceFile \<and> cache s fileName \<noteq> None
         then (cache s fileName, s)
         else
           (case invoke
                   (BaseGetSourceFile fileName languageVersion onError (Some True) parameters)
                   (baseGetSourceFile fileName languageVersion onError (Some True) parameters)
                   s of
              (file, s1) \<Rightarrow>
                (case file of
                   Some f \<Rightarrow> (file, s1\<lparr>cache := (cache s1)(fileName \<mapsto> f)\<rparr>)
                 | None \<Rightarrow> (file, s1)))))"

section \<open>augmentResolveModuleNames and augmentHostWithNgcc\<close>

text \<open>
  The new \<^verbatim>\<open>host.resolveModuleNames\<close> for a modifier of resolved modules. The wrapper of an
  existing resolver asks it for one name at a time.
\<close>

definition augmentResolveModuleNames ::
  "('w, 'v) ts \<Rightarrow> ('w, 'v) CompilerHost
     \<Rightarrow> (ResolvedModule option \<Rightarrow> string \<Rightarrow> ('w, 'v) state
           \<Rightarrow> ResolvedModule option \<times> ('w, 'v) state)
     \<Rightarrow> 'v option
     \<Rightarrow> string list \<Rightarrow> string \<Rightarrow> 'v \<Rightarrow> 'v \<Rightarrow> 'v \<Rightarrow> ('w, 'v) state
     \<Rightarrow> ResolvedModule option list \<times> ('w, 'v) state" where
  "augmentResolveModuleNames ts host resolvedModuleModifier moduleResolutionCache =
     (case resolveModuleNames host of
        Some baseResolveModuleNames \<Rightarrow>
          (\<lambda>moduleNames containingFile reusedNames redirectedReference options.
             arrayMap
               (\<lambda>name s.
                  case invoke
                         (BaseResolveModuleNames [name] containingFile reusedNames
                            redirectedReference options)
                         (baseResolveModuleNames [name] containingFile reusedNames
                            redirectedReference options) s of
                    (result, s1) \<Rightarrow> resolvedModuleModifier (firstResult result) name s1)
               moduleNames)
      | None \<Rightarrow>
          (\<lambda>moduleNames containingFile reusedNames redirectedReference options.
             arrayMap
               (\<lambda>name s.
                  case invoke
                         (TsResolveModuleName name containingFile options
                            moduleResolutionCache redirectedReference)
                         (resolveModuleName ts name containingFile options
                            moduleResolutionCache redirectedReference) s of
                    (result, s1) \<Rightarrow> resolvedModuleModifier result name s1)
               moduleNames))"

text \<open>
  \<^verbatim>\<open>if (x && ngcc) { ngcc.processModule(name, x); }\<close>, which the source writes three times.
\<close>

definition processIfPresent ::
  "'w NgccProcessor option \<Rightarrow> string \<Rightarrow> resolution option \<Rightarrow> ('w, 'v) state
     \<Rightarrow> ('w, 'v) state" where
  "processIfPresent ngcc name x s =
     (case x of
        None \<Rightarrow> s
      | Some r \<Rightarrow>
          (case ngcc of
             None \<Rightarrow> s
           | Some n \<Rightarrow>
               snd (invoke (NgccProcessModule name r)
                      (\<lambda>w. ((), processModule n name r w)) s)))"

text \<open>
  The pair of the new \<^verbatim>\<open>host.resolveModuleNames\<close> and the new
  \<^verbatim>\<open>host.resolveTypeReferenceDirectives\<close>.
\<close>

definition augmentHostWithNgcc ::
  "('w, 'v) ts \<Rightarrow> ('w, 'v) CompilerHost \<Rightarrow> 'w NgccProcessor option \<Rightarrow> 'v option
     \<Rightarrow> (string list \<Rightarrow> string \<Rightarrow> 'v \<Rightarrow> 'v \<Rightarrow> 'v \<Rightarrow> ('w, 'v) state
           \<Rightarrow> ResolvedModule option list \<times> ('w, 'v) state)
       \<times> (string list \<Rightarrow> string \<Rightarrow> 'v \<Rightarrow> 'v \<Rightarrow> ('w, 'v) state
           \<Rightarrow> ResolvedTypeReferenceDirective option list \<times> ('w, 'v) state)" where
  "augmentHostWithNgcc ts host ngcc moduleResolutionCache =
     (augmentResolveModuleNames ts host
        (\<lambda>resolvedModule moduleName s.
           (resolvedModule, processIfPresent ngcc moduleName (map_option Inl resolvedModule) s))
        moduleResolutionCache,
      (case resolveTypeReferenceDirectives host of
         Some baseResolveTypeReferenceDirectives \<Rightarrow>
           (\<lambda>names containingFile redirectedReference options.
              arrayMap
                (\<lambda>name s.
                   case invoke
                          (BaseResolveTypeReferenceDirectives [name] containingFile
                             redirectedReference options)
                          (baseResolveTypeReferenceDirectives [name] containingFile
                             redirectedReference options) s of
                     (result, s1) \<Rightarrow>
                       (firstResult result,
                        processIfPresent ngcc name (map_option Inr (firstResult result)) s1))
                names)
       | None \<Rightarrow>
           (\<lambda>moduleNames containingFile redirectedReference options.
              arrayMap
                (\<lambda>name s.
                   case invoke
                          (TsResolveTypeReferenceDirective name containingFile options
                             redirectedReference)
                          (resolveTypeReferenceDirective ts name containingFile options
                             redirectedReference) s of
                     (result, s1) \<Rightarrow>
                       (result, processIfPresent ngcc name (map_option Inr result) s1))
                moduleNames)))"

section \<open>Observations used to state the properties\<close>

text \<open>Kinds of entries of the call log.\<close>

definition isProcessModule :: "'v call \<Rightarrow> bool" where
  "isProcessModule c = (case c of NgccProcessModule _ _ \<Rightarrow> True | _ \<Rightarrow> False)"

definition isBaseResolve :: "'v call \<Rightarrow> bool" where
  "isBaseResolve c =
     (case c of
        BaseResolveModuleNames _ _ _ _ _ \<Rightarrow> True
      | BaseResolveTypeReferenceDirectives _ _ _ _ \<Rightarrow> True
      | _ \<Rightarrow> False)"

definition isSingleLookup :: "'v call \<Rightarrow> bool" where
  "isSingleLookup c =
     (case c of
        TsResolveModuleName _ _ _ _ _ \<Rightarrow> True
      | TsResolveTypeReferenceDirective _ _ _ _ \<Rightarrow> True
      | _ \<Rightarrow> False)"

text \<open>
  The entries that \<^verbatim>\<open>if (x && ngcc) { ngcc.processModule(name, x); }\<close> adds to the log.
\<close>

definition processCalls ::
  "'w NgccProcessor option \<Rightarrow> string \<Rightarrow> resolution option \<Rightarrow> 'v call list" where
  "processCalls ngcc name x =
     (case x of
        None \<Rightarrow> []
      | Some r \<Rightarrow> (case ngcc of None \<Rightarrow> [] | Some n \<Rightarrow> [NgccProcessModule name r]))"


text \<open>The set of a key of the dependency graph; empty for a key that the graph lacks.\<close>

definition edges :: "(string \<rightharpoonup> string set) \<Rightarrow> string \<Rightarrow> string set" where
  "edges deps key = (case deps key of None \<Rightarrow> {} | Some files \<Rightarrow> files)"

text \<open>A path is normalised when the normaliser accepts it and leaves it as it is.\<close>

definition isNormalized :: "(string \<Rightarrow> error + string) \<Rightarrow> string \<Rightarrow> bool" where
  "isNormalized normalizePath path = (normalizePath path = Inr path)"

text \<open>The file names of the resolutions that are present in a list of results.\<close>

definition resolvedFiles :: "ResolvedModule option list \<Rightarrow> string set" where
  "resolvedFiles results = set (List.map_filter (map_option resolvedFileName) results)"

text \<open>
  Modelled from the spec: \<^verbatim>\<open>normalizePath\<close> of \<^verbatim>\<open>./path\<close>, which is not among the
  sources. The spec calls it a path-normalization utility that maps platform-specific
  separators to one canonical form: every backslash becomes a slash. This instance never
  throws. The augmentations themselves take the normaliser as a parameter.
\<close>

definition normalizePathSpec :: "string \<Rightarrow> error + string" where
  "normalizePathSpec path = Inr (map (\<lambda>c. if c = CHR 0x5C then CHR ''/'' else c) path)"

text \<open>
  What the resolution surface of a host answers for one module name in a given world: the
  first entry of the answer of the host's own resolver to the batch of that one name or,
  for a host without a resolver, the answer of \<^verbatim>\<open>ts.resolveModuleName\<close>.
\<close>

definition resolveOneModule ::
  "('w, 'v) ts \<Rightarrow> ('w, 'v) CompilerHost \<Rightarrow> 'v option \<Rightarrow> string \<Rightarrow> string \<Rightarrow> 'v \<Rightarrow> 'v \<Rightarrow> 'v \<Rightarrow> 'w
     \<Rightarrow> ResolvedModule option" where
  "resolveOneModule ts host moduleResolutionCache name containingFile reusedNames
     redirectedReference options w =
     (case resolveModuleNames host of
        Some base \<Rightarrow>
          firstResult (fst (base [name] containingFile reusedNames redirectedReference options w))
      | None \<Rightarrow>
          fst (resolveModuleName ts name containingFile options moduleResolutionCache
                 redirectedReference w))"

text \<open>The same for one type reference directive.\<close>

definition resolveOneDirective ::
  "('w, 'v) ts \<Rightarrow> ('w, 'v) CompilerHost \<Rightarrow> string \<Rightarrow> string \<Rightarrow> 'v \<Rightarrow> 'v \<Rightarrow> 'w
     \<Rightarrow> ResolvedTypeReferenceDirective option" where
  "resolveOneDirective ts host name containingFile redirectedReference options w =
     (case resolveTypeReferenceDirectives host of
        Some base \<Rightarrow>
          firstResult (fst (base [name] containingFile redirectedReference options w))
      | None \<Rightarrow>
          fst (resolveTypeReferenceDirective ts name containingFile options
                 redirectedReference w))"

text \<open>
  The world that the lookup of one module name leaves: that of the host's own resolver asked
  for the batch of the one name or, for a host without a resolver, that of
  \<^verbatim>\<open>ts.resolveModuleName\<close>.
\<close>

definition worldAfterModule ::
  "('w, 'v) ts \<Rightarrow> ('w, 'v) CompilerHost \<Rightarrow> 'v option \<Rightarrow> string \<Rightarrow> string \<Rightarrow> 'v \<Rightarrow> 'v \<Rightarrow> 'v \<Rightarrow> 'w
     \<Rightarrow> 'w" where
  "worldAfterModule ts host moduleResolutionCache name containingFile reusedNames
     redirectedReference options w =
     (case resolveModuleNames host of
        Some base \<Rightarrow>
          snd (base [name] containingFile reusedNames redirectedReference options w)
      | None \<Rightarrow>
          snd (resolveModuleName ts name containingFile options moduleResolutionCache
                 redirectedReference w))"

text \<open>The same for one type reference directive.\<close>

definition worldAfterDirective ::
  "('w, 'v) ts \<Rightarrow> ('w, 'v) CompilerHost \<Rightarrow> string \<Rightarrow> string \<Rightarrow> 'v \<Rightarrow> 'v \<Rightarrow> 'w \<Rightarrow> 'w" where
  "worldAfterDirective ts host name containingFile redirectedReference options w =
     (case resolveTypeReferenceDirectives host of
        Some base \<Rightarrow>
          snd (base [name] containingFile redirectedReference options w)
      | None \<Rightarrow>
          snd (resolveTypeReferenceDirective ts name containingFile options
                 redirectedReference w))"

text \<open>
  The world that \<^verbatim>\<open>if (x && ngcc) { ngcc.processModule(name, x); }\<close> leaves: the processor
  is applied once when there is a resolution and a processor, and not at all otherwise.
\<close>

definition processedWorld ::
  "'w NgccProcessor option \<Rightarrow> string \<Rightarrow> resolution option \<Rightarrow> 'w \<Rightarrow> 'w" where
  "processedWorld ngcc name x w =
     (case x of
        None \<Rightarrow> w
      | Some r \<Rightarrow> (case ngcc of None \<Rightarrow> w | Some n \<Rightarrow> processModule n name r w))"

section \<open>An example host\<close>

text \<open>
  The scenario of the spec: from \<^verbatim>\<open>/src/app.ts\<close>, the name \<^verbatim>\<open>pkg-a\<close> resolves to
  \<^verbatim>\<open>/node_modules/pkg-a/index.d.ts\<close> and \<^verbatim>\<open>pkg-b\<close> does not resolve. The name \<^verbatim>\<open>pkg-w\<close>
  resolves to a file name with a backslash, as a host on Windows may give it. The world
  counts the calls made to the host and to \<^verbatim>\<open>typescript\<close>; a conversion by ngcc adds 100.
\<close>

definition exampleModule :: "string \<Rightarrow> ResolvedModule option" where
  "exampleModule name =
     (if name = ''pkg-a'' then Some \<lparr>resolvedFileName = ''/node_modules/pkg-a/index.d.ts''\<rparr>
      else if name = ''pkg-w'' then Some \<lparr>resolvedFileName = ''C:'' @ [CHR 0x5C] @ ''pkg-w.d.ts''\<rparr>
      else None)"

definition exampleDirective :: "string \<Rightarrow> ResolvedTypeReferenceDirective option" where
  "exampleDirective name =
     (if name = ''node''
      then Some \<lparr>primary = True, directiveFileName = Some ''/node_modules/@types/node/index.d.ts''\<rparr>
      else None)"

definition exampleTs :: "(nat, nat) ts" where
  "exampleTs =
     \<lparr>resolveModuleName = (\<lambda>name containingFile options moduleResolutionCache
          redirectedReference w. (exampleModule name, Suc w)),
      resolveTypeReferenceDirective = (\<lambda>name containingFile options redirectedReference w.
          (exampleDirective name, Suc w))\<rparr>"

definition exampleSourceFile :: "string \<Rightarrow> nat option" where
  "exampleSourceFile fileName = (if fileName = ''/src/app.ts'' then Some 42 else None)"

text \<open>A host with no resolver of its own.\<close>

definition exampleBareHost :: "(nat, nat) CompilerHost" where
  "exampleBareHost =
     \<lparr>resolveModuleNames = None,
      resolveTypeReferenceDirectives = None,
      getSourceFile = (\<lambda>fileName languageVersion onError shouldCreateNewSourceFile
          parameters w. (exampleSourceFile fileName, Suc w))\<rparr>"

text \<open>A host with batched resolvers.\<close>

definition exampleBatchedHost :: "(nat, nat) CompilerHost" where
  "exampleBatchedHost =
     \<lparr>resolveModuleNames = Some (\<lambda>moduleNames containingFile reusedNames redirectedReference
          options w. (map exampleModule moduleNames, Suc w)),
      resolveTypeReferenceDirectives = Some (\<lambda>names containingFile redirectedReference
          options w. (map exampleDirective names, Suc w)),
      getSourceFile = (\<lambda>fileName languageVersion onError shouldCreateNewSourceFile
          parameters w. (exampleSourceFile fileName, Suc w))\<rparr>"

text \<open>A host whose batched resolver answers with an empty array, whatever the names.\<close>

definition exampleShortHost :: "(nat, nat) CompilerHost" where
  "exampleShortHost =
     \<lparr>resolveModuleNames = Some (\<lambda>moduleNames containingFile reusedNames redirectedReference
          options w. ([], Suc w)),
      resolveTypeReferenceDirectives = None,
      getSourceFile = (\<lambda>fileName languageVersion onError shouldCreateNewSourceFile
          parameters w. (exampleSourceFile fileName, Suc w))\<rparr>"

definition exampleNgcc :: "nat NgccProcessor" where
  "exampleNgcc = \<lparr>processModule = (\<lambda>name r w. w + 100)\<rparr>"

definition exampleState :: "(nat, nat) state" where
  "exampleState = \<lparr>world = 0, calls = [], dependencies = Map.empty, cache = Map.empty\<rparr>"

text \<open>A normaliser that throws on every path.\<close>

definition rejectingNormalizePath :: "string \<Rightarrow> error + string" where
  "rejectingNormalizePath path = Inl (NormalizePathError path)"

section \<open>Properties of the versioner\<close>

lemma versionFiles_outside:
  "file \<notin> set files \<Longrightarrow> versionFiles sha256hex files fs file = fs file"
  by (induction files arbitrary: fs) auto

lemma versionFiles_versioned:
  "version (fs file) \<noteq> None \<Longrightarrow> versionFiles sha256hex files fs file = fs file"
proof (induction files arbitrary: fs)
  case Nil
  then show ?case by simp
next
  case (Cons a files)
  show ?case
  proof (cases "version (fs a)")
    case None
    with Cons.prems have ne: "a \<noteq> file" by auto
    let ?fs = "fs(a := (fs a)\<lparr>version := Some (sha256hex (fileText (fs a)))\<rparr>)"
    from ne Cons.prems have "version (?fs file) \<noteq> None" by simp
    then have "versionFiles sha256hex files ?fs file = ?fs file" by (rule Cons.IH)
    with ne None show ?thesis by simp
  next
    case (Some w)
    from Cons.prems have "versionFiles sha256hex files fs file = fs file" by (rule Cons.IH)
    with Some show ?thesis by simp
  qed
qed

lemma versionFiles_fileText:
  "fileText (versionFiles sha256hex files fs file) = fileText (fs file)"
  by (induction files arbitrary: fs) auto

lemma versionFiles_listed:
  "file \<in> set files \<Longrightarrow>
   version (versionFiles sha256hex files fs file) =
     Some (case version (fs file) of None \<Rightarrow> sha256hex (fileText (fs file)) | Some v \<Rightarrow> v)"
proof (induction files arbitrary: fs)
  case Nil
  then show ?case by simp
next
  case (Cons a files)
  show ?case
  proof (cases "version (fs file)")
    case (Some v)
    then have "versionFiles sha256hex (a # files) fs file = fs file"
      by (intro versionFiles_versioned) simp
    with Some show ?thesis by simp
  next
    case None
    show ?thesis
    proof (cases "a = file")
      case True
      let ?fs = "fs(a := (fs a)\<lparr>version := Some (sha256hex (fileText (fs a)))\<rparr>)"
      from True have "version (?fs file) \<noteq> None" by simp
      then have "versionFiles sha256hex files ?fs file = ?fs file"
        by (rule versionFiles_versioned)
      with True None show ?thesis by simp
    next
      case False
      let ?fs = "if version (fs a) = None
             then fs(a := (fs a)\<lparr>version := Some (sha256hex (fileText (fs a)))\<rparr>) else fs"
      from False Cons.prems have "file \<in> set files" by simp
      then have "version (versionFiles sha256hex files ?fs file) =
          Some (case version (?fs file) of
               None \<Rightarrow> sha256hex (fileText (?fs file)) | Some v \<Rightarrow> v)"
        by (rule Cons.IH)
      moreover from False have "?fs file = fs file" by simp
      ultimately show ?thesis using None by simp
    qed
  qed
qed

text \<open>
  Claim C4. The wrapped enumeration returns the list of the original enumeration. After it,
  every listed file has a version: the digest of its text when it had none, its old version
  otherwise; a file that had a version, and a file that is not listed, is unchanged, and no
  text changes. So a second enumeration, whatever its arguments, leaves every file of the
  first one as it was: the versions after the two enumerations are equal.
\<close>

theorem versioning_idempotent:
  "case augmentProgramWithVersioning sha256hex program parameters fs of
     (files, fsA) \<Rightarrow>
       files = getSourceFiles program parameters fs
       \<and> (\<forall>file \<in> set files.
            version (fsA file) =
              Some (case version (fs file) of
                      None \<Rightarrow> sha256hex (fileText (fs file))
                    | Some v \<Rightarrow> v))
       \<and> (\<forall>file. version (fs file) \<noteq> None \<longrightarrow> fsA file = fs file)
       \<and> (\<forall>file. file \<notin> set files \<longrightarrow> fsA file = fs file)
       \<and> (\<forall>file. fileText (fsA file) = fileText (fs file))
       \<and> (\<forall>file \<in> set files.
            snd (augmentProgramWithVersioning sha256hex program later fsA) file = fsA file)"
  by (simp add: augmentProgramWithVersioning_def Let_def versionFiles_outside
      versionFiles_versioned versionFiles_fileText versionFiles_listed)

theorem versioning_idempotent_witness:
  "(let sha256hex = (\<lambda>t. ''sha256:'' @ t);
        program = \<lparr>getSourceFiles = (\<lambda>(_::unit list) _. [0, Suc 0, 0])\<rparr>;
        fs = (\<lambda>_. \<lparr>fileText = ''export {}'', version = None\<rparr>)
               (Suc 0 := \<lparr>fileText = ''let x'', version = Some ''v1''\<rparr>);
        r = augmentProgramWithVersioning sha256hex program [] fs
    in fst r = [0, Suc 0, 0]
       \<and> version (snd r 0) = Some ''sha256:export {}''
       \<and> version (snd r (Suc 0)) = Some ''v1''
       \<and> version (snd r 2) = None
       \<and> version (snd (augmentProgramWithVersioning sha256hex program [] (snd r)) 0)
           = Some ''sha256:export {}'')"
  using versioning_idempotent
    [where sha256hex = "\<lambda>t. ''sha256:'' @ t"
       and program = "\<lparr>getSourceFiles = (\<lambda>(_::unit list) _. [0, Suc 0, 0])\<rparr>"
       and parameters = "[]" and later = "[]"
       and fs = "(\<lambda>_. \<lparr>fileText = ''export {}'', version = None\<rparr>)
               (Suc 0 := \<lparr>fileText = ''let x'', version = Some ''v1''\<rparr>)"]
  by (simp add: augmentProgramWithVersioning_def Let_def)

section \<open>Helper facts\<close>

subsection \<open>The array map\<close>

lemma arrayMap_Cons_fst:
  "fst (arrayMap f (x # xs) s) = fst (f x s) # fst (arrayMap f xs (snd (f x s)))"
  by (simp split: prod.splits)

lemma arrayMap_Cons_snd:
  "snd (arrayMap f (x # xs) s) = snd (arrayMap f xs (snd (f x s)))"
  by (simp split: prod.splits)

lemma arrayMap_length: "length (fst (arrayMap f xs s)) = length xs"
  by (induction xs arbitrary: s) (simp_all add: arrayMap_Cons_fst del: arrayMap.simps(2))

lemma arrayMap_nth:
  "i < length xs \<Longrightarrow>
   fst (arrayMap f xs s) ! i = fst (f (xs ! i) (snd (arrayMap f (take i xs) s)))"
proof (induction xs arbitrary: s i)
  case Nil
  then show ?case by simp
next
  case (Cons x xs)
  show ?case
  proof (cases i)
    case 0
    then show ?thesis by (simp add: arrayMap_Cons_fst del: arrayMap.simps(2))
  next
    case (Suc j)
    with Cons.prems have "j < length xs" by simp
    then have "fst (arrayMap f xs (snd (f x s))) ! j =
        fst (f (xs ! j) (snd (arrayMap f (take j xs) (snd (f x s)))))"
      by (rule Cons.IH)
    with Suc show ?thesis
      by (simp add: arrayMap_Cons_fst arrayMap_Cons_snd del: arrayMap.simps(2))
  qed
qed

lemma arrayMap_snd_append:
  "snd (arrayMap f (xs @ ys) s) = snd (arrayMap f ys (snd (arrayMap f xs s)))"
  by (induction xs arbitrary: s) (simp_all add: arrayMap_Cons_snd del: arrayMap.simps(2))

lemma arrayMap_take_Suc:
  "i < length xs \<Longrightarrow>
   snd (arrayMap f (take (Suc i) xs) s) = snd (f (xs ! i) (snd (arrayMap f (take i xs) s)))"
  by (simp add: take_Suc_conv_app_nth arrayMap_snd_append arrayMap_Cons_snd
      del: arrayMap.simps(2))

lemma arrayMap_calls:
  assumes step: "\<And>x s. calls (snd (f x s)) = calls s @ g x (fst (f x s))"
  shows "calls (snd (arrayMap f xs s)) =
           calls s @ concat (map (\<lambda>(x, y). g x y) (zip xs (fst (arrayMap f xs s))))"
proof (induction xs arbitrary: s)
  case Nil
  show ?case by simp
next
  case (Cons x xs)
  obtain y sA where fx: "f x s = (y, sA)" by (cases "f x s")
  obtain ys sB where rest: "arrayMap f xs sA = (ys, sB)" by (cases "arrayMap f xs sA")
  from step[of x s] fx have "calls sA = calls s @ g x y" by simp
  moreover from Cons.IH[of sA] rest
  have "calls sB = calls sA @ concat (map (\<lambda>(x, y). g x y) (zip xs ys))" by simp
  ultimately show ?case using fx rest by simp
qed


lemma arrayMapE_total:
  assumes "\<And>x s. f x s = (Inr (fst (g x s)), snd (g x s))"
  shows "arrayMapE f xs s = (Inr (fst (arrayMap g xs s)), snd (arrayMap g xs s))"
proof (induction xs arbitrary: s)
  case Nil
  show ?case by simp
next
  case (Cons x xs)
  have "arrayMapE f xs (snd (g x s)) =
      (Inr (fst (arrayMap g xs (snd (g x s)))), snd (arrayMap g xs (snd (g x s))))"
    by (rule Cons.IH)
  with assms[of x s] show ?case
    by (simp add: arrayMap_Cons_fst arrayMap_Cons_snd del: arrayMap.simps(2))
qed

lemma arrayMapE_preserves:
  assumes "\<And>x s. P s \<Longrightarrow> P (snd (f x s))" and "P s"
  shows "P (snd (arrayMapE f xs s))"
  using assms(2)
proof (induction xs arbitrary: s)
  case Nil
  then show ?case by simp
next
  case (Cons x xs)
  from Cons.prems have step: "P (snd (f x s))" by (rule assms(1))
  then have rest: "P (snd (arrayMapE f xs (snd (f x s))))" by (rule Cons.IH)
  obtain r sA where fx: "f x s = (r, sA)" by (cases "f x s")
  obtain rs sB where fxs: "arrayMapE f xs sA = (rs, sB)" by (cases "arrayMapE f xs sA")
  from step rest fx fxs show ?case
    by (cases r; cases rs) simp_all
qed


lemma arrayMapE_Cons_Inr:
  assumes "fst (f x s) = Inr y"
  shows "snd (arrayMapE f (x # xs) s) = snd (arrayMapE f xs (snd (f x s)))"
    and "fst (arrayMapE f (x # xs) s) =
           (case fst (arrayMapE f xs (snd (f x s))) of
              Inl e \<Rightarrow> Inl e
            | Inr ys \<Rightarrow> Inr (y # ys))"
proof -
  obtain sA where fx: "f x s = (Inr y, sA)" using assms by (cases "f x s") simp
  obtain rs sB where rest: "arrayMapE f xs sA = (rs, sB)" by (cases "arrayMapE f xs sA")
  from fx rest show "snd (arrayMapE f (x # xs) s) = snd (arrayMapE f xs (snd (f x s)))"
    by (cases rs) simp_all
  from fx rest show "fst (arrayMapE f (x # xs) s) =
           (case fst (arrayMapE f xs (snd (f x s))) of
              Inl e \<Rightarrow> Inl e
            | Inr ys \<Rightarrow> Inr (y # ys))"
    by (cases rs) simp_all
qed

lemma arrayMapE_Cons_Inl:
  assumes "fst (f x s) = Inl e"
  shows "fst (arrayMapE f (x # xs) s) = Inl e"
proof -
  obtain sA where "f x s = (Inl e, sA)" using assms by (cases "f x s") simp
  then show ?thesis by simp
qed

lemma arrayMapE_Cons_InrD:
  assumes "fst (arrayMapE f (x # xs) s) = Inr ys"
  shows "\<exists>y zs. fst (f x s) = Inr y \<and> fst (arrayMapE f xs (snd (f x s))) = Inr zs
      \<and> ys = y # zs"
proof (cases "fst (f x s)")
  case (Inl e)
  with assms arrayMapE_Cons_Inl[of f x s e xs] show ?thesis by simp
next
  case (Inr y)
  from arrayMapE_Cons_Inr(2)[where f = f and x = x and s = s and xs = xs, OF Inr] assms Inr
  show ?thesis
    by (cases "fst (arrayMapE f xs (snd (f x s)))") auto
qed

lemma arrayMapE_Inr_length:
  "fst (arrayMapE f xs s) = Inr ys \<Longrightarrow> length ys = length xs"
proof (induction xs arbitrary: s ys)
  case Nil
  then show ?case by simp
next
  case (Cons x xs)
  from arrayMapE_Cons_InrD[OF Cons.prems] obtain y zs where
    zs: "fst (arrayMapE f xs (snd (f x s))) = Inr zs" and ys: "ys = y # zs" by blast
  from Cons.IH[OF zs] ys show ?case by simp
qed

lemma arrayMapE_Inr_nth:
  "fst (arrayMapE f xs s) = Inr ys \<Longrightarrow> i < length xs \<Longrightarrow>
   fst (f (xs ! i) (snd (arrayMapE f (take i xs) s))) = Inr (ys ! i)"
proof (induction xs arbitrary: s ys i)
  case Nil
  then show ?case by simp
next
  case (Cons x xs)
  from arrayMapE_Cons_InrD[OF Cons.prems(1)] obtain y zs where y: "fst (f x s) = Inr y"
    and zs: "fst (arrayMapE f xs (snd (f x s))) = Inr zs" and ys: "ys = y # zs" by blast
  show ?case
  proof (cases i)
    case 0
    with y ys show ?thesis by simp
  next
    case (Suc j)
    with Cons.prems(2) have j: "j < length xs" by simp
    from Cons.IH[OF zs j] Suc ys show ?thesis
      by (simp add: arrayMapE_Cons_Inr(1)[where f = f and x = x and s = s, OF y]
          del: arrayMapE.simps(2))
  qed
qed

lemma arrayMapE_Inl:
  assumes step: "\<And>x s e. fst (f x s) = Inl e \<Longrightarrow> P e"
    and "fst (arrayMapE f xs s) = Inl e"
  shows "P e"
  using assms(2)
proof (induction xs arbitrary: s)
  case Nil
  then show ?case by simp
next
  case (Cons x xs)
  show ?case
  proof (cases "fst (f x s)")
    case (Inl d)
    with Cons.prems arrayMapE_Cons_Inl[of f x s d xs] have "d = e" by simp
    with Inl step show ?thesis by blast
  next
    case (Inr y)
    from arrayMapE_Cons_Inr(2)[where f = f and x = x and s = s and xs = xs, OF Inr] Cons.prems
    have "fst (arrayMapE f xs (snd (f x s))) = Inl e"
      by (cases "fst (arrayMapE f xs (snd (f x s)))") auto
    then show ?thesis by (rule Cons.IH)
  qed
qed

lemma concat_singletons_zip:
  "length ys = length xs \<Longrightarrow> concat (map (\<lambda>(x, y). [h x]) (zip xs ys)) = map h xs"
  by (induction xs ys rule: list_induct2') auto


lemma concat_empties: "concat (map (\<lambda>(x, y). []) zs) = []"
  by (induction zs) auto

lemma filter_concat_pairs:
  "filter P (concat (map (\<lambda>(x, y). g x y) zs)) = concat (map (\<lambda>(x, y). filter P (g x y)) zs)"
  by (induction zs) auto

subsection \<open>Calls and the log\<close>

lemma invoke_calls: "calls (snd (invoke c f s)) = calls s @ [c]"
  by (simp add: invoke_def split: prod.splits)

lemma processIfPresent_calls:
  "calls (processIfPresent ngcc name x s) = calls s @ processCalls ngcc name x"
  by (simp add: processIfPresent_def processCalls_def invoke_calls split: option.splits)

lemma processIfPresent_frame:
  "dependencies (processIfPresent ngcc name x s) = dependencies s"
  "cache (processIfPresent ngcc name x s) = cache s"
  by (simp_all add: processIfPresent_def invoke_def split: option.splits)

lemma processIfPresent_world:
  "world (processIfPresent ngcc name x s) = processedWorld ngcc name x (world s)"
  by (simp add: processIfPresent_def processedWorld_def invoke_def split: option.splits)

lemma filter_processCalls:
  "filter isProcessModule (processCalls (Some ngcc) name x) =
     (case x of None \<Rightarrow> [] | Some r \<Rightarrow> [NgccProcessModule name r])"
  "filter isBaseResolve (processCalls ngccO name x) = []"
  "filter isSingleLookup (processCalls ngccO name x) = []"
  by (simp_all add: processCalls_def isProcessModule_def isBaseResolve_def isSingleLookup_def
      split: option.splits)

subsection \<open>The dependency graph\<close>

lemma edges_addDependency:
  "edges (addDependency p file deps) key =
     edges deps key \<union> (if key = p then {file} else {})"
  by (auto simp: edges_def addDependency_def split: option.splits)

lemma dom_addDependency: "dom (addDependency p file deps) = insert p (dom deps)"
  by (auto simp: addDependency_def split: option.splits)

lemma resolvedFiles_Nil: "resolvedFiles [] = {}"
  by (simp add: resolvedFiles_def)

lemma resolvedFiles_Cons:
  "resolvedFiles (result # results) =
     (case result of None \<Rightarrow> {} | Some r \<Rightarrow> {resolvedFileName r}) \<union> resolvedFiles results"
  by (simp add: resolvedFiles_def split: option.splits)

lemma edges_recordResults:
  "edges (recordResults p results deps) key =
     edges deps key \<union> (if key = p then resolvedFiles results else {})"
proof (induction results arbitrary: deps)
  case Nil
  show ?case by (simp add: resolvedFiles_Nil)
next
  case (Cons result results)
  show ?case
    by (cases result) (auto simp: Cons.IH resolvedFiles_Cons edges_addDependency)
qed

lemma dom_recordResults:
  "dom (recordResults p results deps) \<subseteq> insert p (dom deps)"
proof (induction results arbitrary: deps)
  case Nil
  show ?case by auto
next
  case (Cons result results)
  have "dom (recordResults p results
          (case result of Some r \<Rightarrow> addDependency p (resolvedFileName r) deps | None \<Rightarrow> deps))
        \<subseteq> insert p (dom (case result of
              Some r \<Rightarrow> addDependency p (resolvedFileName r) deps | None \<Rightarrow> deps))"
    by (rule Cons.IH)
  then show ?case by (cases result) (auto simp: dom_addDependency)
qed

lemma dom_recordResults_mono: "dom deps \<subseteq> dom (recordResults p results deps)"
proof (induction results arbitrary: deps)
  case Nil
  show ?case by simp
next
  case (Cons result results)
  have "dom (case result of Some r \<Rightarrow> addDependency p (resolvedFileName r) deps | None \<Rightarrow> deps)
        \<subseteq> dom (recordResults p results
             (case result of Some r \<Rightarrow> addDependency p (resolvedFileName r) deps | None \<Rightarrow> deps))"
    by (rule Cons.IH)
  then show ?case by (cases result) (auto simp: dom_addDependency)
qed

lemma arrayMap_recordResults:
  assumes "\<And>name s. dependencies (snd (cb name s)) =
        (case fst (cb name s) of
           Some r \<Rightarrow> addDependency p (resolvedFileName r) (dependencies s)
         | None \<Rightarrow> dependencies s)"
  shows "dependencies (snd (arrayMap cb names s)) =
           recordResults p (fst (arrayMap cb names s)) (dependencies s)"
proof (induction names arbitrary: s)
  case Nil
  show ?case by simp
next
  case (Cons name names)
  have "dependencies (snd (arrayMap cb names (snd (cb name s)))) =
      recordResults p (fst (arrayMap cb names (snd (cb name s)))) (dependencies (snd (cb name s)))"
    by (rule Cons.IH)
  then show ?case
    by (simp add: assms arrayMap_Cons_fst arrayMap_Cons_snd del: arrayMap.simps(2))
qed

subsection \<open>The installed operations\<close>

lemma ngcc_modules_callback:
  obtains cb where
    "\<And>names s. fst (augmentHostWithNgcc (ts :: ('w, 'v) ts) host ngcc moduleResolutionCache)
        names containingFile reusedNames redirectedReference options s = arrayMap cb names s"
    and "\<And>name s. fst (cb name s) =
        (case resolveModuleNames host of
           Some base \<Rightarrow>
             firstResult (fst (base [name] containingFile reusedNames redirectedReference
                options (world s)))
         | None \<Rightarrow>
             fst (resolveModuleName ts name containingFile options moduleResolutionCache
                redirectedReference (world s)))"
    and "\<And>name s. calls (snd (cb name s)) =
        calls s @
        (case resolveModuleNames host of
           Some base \<Rightarrow>
             BaseResolveModuleNames [name] containingFile reusedNames redirectedReference options
         | None \<Rightarrow>
             TsResolveModuleName name containingFile options moduleResolutionCache
               redirectedReference)
        # processCalls ngcc name (map_option Inl (fst (cb name s)))"
    and "\<And>name s. dependencies (snd (cb name s)) = dependencies s"
    and "\<And>name s. cache (snd (cb name s)) = cache s"
    and "\<And>name s. world (snd (cb name s)) =
        processedWorld ngcc name (map_option Inl (fst (cb name s)))
          (worldAfterModule ts host moduleResolutionCache name containingFile reusedNames
             redirectedReference options (world s))"
proof (cases "resolveModuleNames host")
  case None
  let ?cb = "\<lambda>name s.
     case invoke
            (TsResolveModuleName name containingFile options
               moduleResolutionCache redirectedReference)
            (resolveModuleName ts name containingFile options
               moduleResolutionCache redirectedReference) s of
       (result, sA) \<Rightarrow>
         (result, processIfPresent ngcc name (map_option Inl result) sA)"
  show thesis
  proof (rule that[of ?cb])
    fix names :: "string list" and s :: "('w, 'v) state"
    show "fst (augmentHostWithNgcc ts host ngcc moduleResolutionCache)
        names containingFile reusedNames redirectedReference options s = arrayMap ?cb names s"
      by (simp add: augmentHostWithNgcc_def augmentResolveModuleNames_def None)
  next
    fix name :: string and s :: "('w, 'v) state"
    show "fst (?cb name s) =
        (case resolveModuleNames host of
           Some base \<Rightarrow>
             firstResult (fst (base [name] containingFile reusedNames redirectedReference
                options (world s)))
         | None \<Rightarrow>
             fst (resolveModuleName ts name containingFile options moduleResolutionCache
                redirectedReference (world s)))"
      by (simp add: None invoke_def split: prod.splits)
    show "calls (snd (?cb name s)) =
        calls s @
        (case resolveModuleNames host of
           Some base \<Rightarrow>
             BaseResolveModuleNames [name] containingFile reusedNames redirectedReference options
         | None \<Rightarrow>
             TsResolveModuleName name containingFile options moduleResolutionCache
               redirectedReference)
        # processCalls ngcc name (map_option Inl (fst (?cb name s)))"
      by (simp add: None invoke_def processIfPresent_calls split: prod.splits)
    show "dependencies (snd (?cb name s)) = dependencies s"
      by (simp add: invoke_def processIfPresent_frame split: prod.splits)
    show "cache (snd (?cb name s)) = cache s"
      by (simp add: invoke_def processIfPresent_frame split: prod.splits)
    show "world (snd (?cb name s)) =
        processedWorld ngcc name (map_option Inl (fst (?cb name s)))
          (worldAfterModule ts host moduleResolutionCache name containingFile reusedNames
             redirectedReference options (world s))"
      by (simp add: None invoke_def processIfPresent_world worldAfterModule_def
          split: prod.splits)
  qed
next
  case (Some base)
  let ?cb = "\<lambda>name s.
     case invoke
            (BaseResolveModuleNames [name] containingFile reusedNames
               redirectedReference options)
            (base [name] containingFile reusedNames redirectedReference options) s of
       (result, sA) \<Rightarrow>
         (firstResult result,
          processIfPresent ngcc name (map_option Inl (firstResult result)) sA)"
  show thesis
  proof (rule that[of ?cb])
    fix names :: "string list" and s :: "('w, 'v) state"
    show "fst (augmentHostWithNgcc ts host ngcc moduleResolutionCache)
        names containingFile reusedNames redirectedReference options s = arrayMap ?cb names s"
      by (simp add: augmentHostWithNgcc_def augmentResolveModuleNames_def Some)
  next
    fix name :: string and s :: "('w, 'v) state"
    show "fst (?cb name s) =
        (case resolveModuleNames host of
           Some base \<Rightarrow>
             firstResult (fst (base [name] containingFile reusedNames redirectedReference
                options (world s)))
         | None \<Rightarrow>
             fst (resolveModuleName ts name containingFile options moduleResolutionCache
                redirectedReference (world s)))"
      by (simp add: Some invoke_def split: prod.splits)
    show "calls (snd (?cb name s)) =
        calls s @
        (case resolveModuleNames host of
           Some base \<Rightarrow>
             BaseResolveModuleNames [name] containingFile reusedNames redirectedReference options
         | None \<Rightarrow>
             TsResolveModuleName name containingFile options moduleResolutionCache
               redirectedReference)
        # processCalls ngcc name (map_option Inl (fst (?cb name s)))"
      by (simp add: Some invoke_def processIfPresent_calls split: prod.splits)
    show "dependencies (snd (?cb name s)) = dependencies s"
      by (simp add: invoke_def processIfPresent_frame split: prod.splits)
    show "cache (snd (?cb name s)) = cache s"
      by (simp add: invoke_def processIfPresent_frame split: prod.splits)
    show "world (snd (?cb name s)) =
        processedWorld ngcc name (map_option Inl (fst (?cb name s)))
          (worldAfterModule ts host moduleResolutionCache name containingFile reusedNames
             redirectedReference options (world s))"
      by (simp add: Some invoke_def processIfPresent_world worldAfterModule_def
          split: prod.splits)
  qed
qed

lemma ngcc_directives_callback:
  obtains cb where
    "\<And>names s. snd (augmentHostWithNgcc (ts :: ('w, 'v) ts) host ngcc moduleResolutionCache)
        names containingFile redirectedReference options s = arrayMap cb names s"
    and "\<And>name s. fst (cb name s) =
        (case resolveTypeReferenceDirectives host of
           Some base \<Rightarrow>
             firstResult (fst (base [name] containingFile redirectedReference options (world s)))
         | None \<Rightarrow>
             fst (resolveTypeReferenceDirective ts name containingFile options
                redirectedReference (world s)))"
    and "\<And>name s. calls (snd (cb name s)) =
        calls s @
        (case resolveTypeReferenceDirectives host of
           Some base \<Rightarrow>
             BaseResolveTypeReferenceDirectives [name] containingFile redirectedReference options
         | None \<Rightarrow>
             TsResolveTypeReferenceDirective name containingFile options redirectedReference)
        # processCalls ngcc name (map_option Inr (fst (cb name s)))"
    and "\<And>name s. dependencies (snd (cb name s)) = dependencies s"
    and "\<And>name s. cache (snd (cb name s)) = cache s"
    and "\<And>name s. world (snd (cb name s)) =
        processedWorld ngcc name (map_option Inr (fst (cb name s)))
          (worldAfterDirective ts host name containingFile redirectedReference options (world s))"
proof (cases "resolveTypeReferenceDirectives host")
  case None
  let ?cb = "\<lambda>name s.
     case invoke
            (TsResolveTypeReferenceDirective name containingFile options redirectedReference)
            (resolveTypeReferenceDirective ts name containingFile options redirectedReference)
            s of
       (result, sA) \<Rightarrow>
         (result, processIfPresent ngcc name (map_option Inr result) sA)"
  show thesis
  proof (rule that[of ?cb])
    fix names :: "string list" and s :: "('w, 'v) state"
    show "snd (augmentHostWithNgcc ts host ngcc moduleResolutionCache)
        names containingFile redirectedReference options s = arrayMap ?cb names s"
      by (simp add: augmentHostWithNgcc_def None)
  next
    fix name :: string and s :: "('w, 'v) state"
    show "fst (?cb name s) =
        (case resolveTypeReferenceDirectives host of
           Some base \<Rightarrow>
             firstResult (fst (base [name] containingFile redirectedReference options (world s)))
         | None \<Rightarrow>
             fst (resolveTypeReferenceDirective ts name containingFile options
                redirectedReference (world s)))"
      by (simp add: None invoke_def split: prod.splits)
    show "calls (snd (?cb name s)) =
        calls s @
        (case resolveTypeReferenceDirectives host of
           Some base \<Rightarrow>
             BaseResolveTypeReferenceDirectives [name] containingFile redirectedReference options
         | None \<Rightarrow>
             TsResolveTypeReferenceDirective name containingFile options redirectedReference)
        # processCalls ngcc name (map_option Inr (fst (?cb name s)))"
      by (simp add: None invoke_def processIfPresent_calls split: prod.splits)
    show "dependencies (snd (?cb name s)) = dependencies s"
      by (simp add: invoke_def processIfPresent_frame split: prod.splits)
    show "cache (snd (?cb name s)) = cache s"
      by (simp add: invoke_def processIfPresent_frame split: prod.splits)
    show "world (snd (?cb name s)) =
        processedWorld ngcc name (map_option Inr (fst (?cb name s)))
          (worldAfterDirective ts host name containingFile redirectedReference options (world s))"
      by (simp add: None invoke_def processIfPresent_world worldAfterDirective_def
          split: prod.splits)
  qed
next
  case (Some base)
  let ?cb = "\<lambda>name s.
     case invoke
            (BaseResolveTypeReferenceDirectives [name] containingFile redirectedReference
               options)
            (base [name] containingFile redirectedReference options) s of
       (result, sA) \<Rightarrow>
         (firstResult result,
          processIfPresent ngcc name (map_option Inr (firstResult result)) sA)"
  show thesis
  proof (rule that[of ?cb])
    fix names :: "string list" and s :: "('w, 'v) state"
    show "snd (augmentHostWithNgcc ts host ngcc moduleResolutionCache)
        names containingFile redirectedReference options s = arrayMap ?cb names s"
      by (simp add: augmentHostWithNgcc_def Some)
  next
    fix name :: string and s :: "('w, 'v) state"
    show "fst (?cb name s) =
        (case resolveTypeReferenceDirectives host of
           Some base \<Rightarrow>
             firstResult (fst (base [name] containingFile redirectedReference options (world s)))
         | None \<Rightarrow>
             fst (resolveTypeReferenceDirective ts name containingFile options
                redirectedReference (world s)))"
      by (simp add: Some invoke_def split: prod.splits)
    show "calls (snd (?cb name s)) =
        calls s @
        (case resolveTypeReferenceDirectives host of
           Some base \<Rightarrow>
             BaseResolveTypeReferenceDirectives [name] containingFile redirectedReference options
         | None \<Rightarrow>
             TsResolveTypeReferenceDirective name containingFile options redirectedReference)
        # processCalls ngcc name (map_option Inr (fst (?cb name s)))"
      by (simp add: Some invoke_def processIfPresent_calls split: prod.splits)
    show "dependencies (snd (?cb name s)) = dependencies s"
      by (simp add: invoke_def processIfPresent_frame split: prod.splits)
    show "cache (snd (?cb name s)) = cache s"
      by (simp add: invoke_def processIfPresent_frame split: prod.splits)
    show "world (snd (?cb name s)) =
        processedWorld ngcc name (map_option Inr (fst (?cb name s)))
          (worldAfterDirective ts host name containingFile redirectedReference options (world s))"
      by (simp add: Some invoke_def processIfPresent_world worldAfterDirective_def
          split: prod.splits)
  qed
qed

lemma ngcc_modules_run:
  fixes ts :: "('w, 'v) ts"
  shows "length (fst (fst (augmentHostWithNgcc ts host ngcc moduleResolutionCache)
            names containingFile reusedNames redirectedReference options s)) = length names"
    and "i < length names \<Longrightarrow>
         fst (fst (augmentHostWithNgcc ts host ngcc moduleResolutionCache)
            names containingFile reusedNames redirectedReference options s) ! i =
         resolveOneModule ts host moduleResolutionCache (names ! i) containingFile reusedNames
           redirectedReference options
           (world (snd (fst (augmentHostWithNgcc ts host ngcc moduleResolutionCache)
              (take i names) containingFile reusedNames redirectedReference options s)))"
    and "calls (snd (fst (augmentHostWithNgcc ts host ngcc moduleResolutionCache)
            names containingFile reusedNames redirectedReference options s)) =
         calls s @ concat (map (\<lambda>(name, x).
             (case resolveModuleNames host of
                Some base \<Rightarrow>
                  BaseResolveModuleNames [name] containingFile reusedNames redirectedReference
                    options
              | None \<Rightarrow>
                  TsResolveModuleName name containingFile options moduleResolutionCache
                    redirectedReference)
             # processCalls ngcc name (map_option Inl x))
           (zip names (fst (fst (augmentHostWithNgcc ts host ngcc moduleResolutionCache)
              names containingFile reusedNames redirectedReference options s))))"
    and "i < length names \<Longrightarrow>
         world (snd (fst (augmentHostWithNgcc ts host ngcc moduleResolutionCache)
            (take (Suc i) names) containingFile reusedNames redirectedReference options s)) =
         processedWorld ngcc (names ! i)
           (map_option Inl
              (fst (fst (augmentHostWithNgcc ts host ngcc moduleResolutionCache)
                 names containingFile reusedNames redirectedReference options s) ! i))
           (worldAfterModule ts host moduleResolutionCache (names ! i) containingFile reusedNames
              redirectedReference options
              (world (snd (fst (augmentHostWithNgcc ts host ngcc moduleResolutionCache)
                 (take i names) containingFile reusedNames redirectedReference options s))))"
proof -
  obtain cb where
    run: "\<And>names s. fst (augmentHostWithNgcc ts host ngcc moduleResolutionCache)
        names containingFile reusedNames redirectedReference options s = arrayMap cb names s"
    and res: "\<And>name s. fst (cb name s) =
        (case resolveModuleNames host of
           Some base \<Rightarrow>
             firstResult (fst (base [name] containingFile reusedNames redirectedReference
                options (world s)))
         | None \<Rightarrow>
             fst (resolveModuleName ts name containingFile options moduleResolutionCache
                redirectedReference (world s)))"
    and log: "\<And>name s. calls (snd (cb name s)) =
        calls s @
        (case resolveModuleNames host of
           Some base \<Rightarrow>
             BaseResolveModuleNames [name] containingFile reusedNames redirectedReference options
         | None \<Rightarrow>
             TsResolveModuleName name containingFile options moduleResolutionCache
               redirectedReference)
        # processCalls ngcc name (map_option Inl (fst (cb name s)))"
    and wld: "\<And>name s. world (snd (cb name s)) =
        processedWorld ngcc name (map_option Inl (fst (cb name s)))
          (worldAfterModule ts host moduleResolutionCache name containingFile reusedNames
              redirectedReference options (world s))"
    by (rule ngcc_modules_callback[where ts = ts and host = host and ngcc = ngcc
          and moduleResolutionCache = moduleResolutionCache and containingFile = containingFile
          and reusedNames = reusedNames and redirectedReference = redirectedReference
          and options = options]) blast
  show "length (fst (fst (augmentHostWithNgcc ts host ngcc moduleResolutionCache)
            names containingFile reusedNames redirectedReference options s)) = length names"
    by (simp add: run arrayMap_length)
  show "fst (fst (augmentHostWithNgcc ts host ngcc moduleResolutionCache)
            names containingFile reusedNames redirectedReference options s) ! i =
         resolveOneModule ts host moduleResolutionCache (names ! i) containingFile reusedNames
           redirectedReference options
           (world (snd (fst (augmentHostWithNgcc ts host ngcc moduleResolutionCache)
              (take i names) containingFile reusedNames redirectedReference options s)))"
    if "i < length names"
    using that by (simp add: run arrayMap_nth res resolveOneModule_def)
  show "calls (snd (fst (augmentHostWithNgcc ts host ngcc moduleResolutionCache)
            names containingFile reusedNames redirectedReference options s)) =
         calls s @ concat (map (\<lambda>(name, x).
             (case resolveModuleNames host of
                Some base \<Rightarrow>
                  BaseResolveModuleNames [name] containingFile reusedNames redirectedReference
                    options
              | None \<Rightarrow>
                  TsResolveModuleName name containingFile options moduleResolutionCache
                    redirectedReference)
             # processCalls ngcc name (map_option Inl x))
           (zip names (fst (fst (augmentHostWithNgcc ts host ngcc moduleResolutionCache)
              names containingFile reusedNames redirectedReference options s))))"
    unfolding run by (rule arrayMap_calls) (rule log)
  show "world (snd (fst (augmentHostWithNgcc ts host ngcc moduleResolutionCache)
            (take (Suc i) names) containingFile reusedNames redirectedReference options s)) =
         processedWorld ngcc (names ! i)
           (map_option Inl
              (fst (fst (augmentHostWithNgcc ts host ngcc moduleResolutionCache)
                 names containingFile reusedNames redirectedReference options s) ! i))
           (worldAfterModule ts host moduleResolutionCache (names ! i) containingFile reusedNames
              redirectedReference options
              (world (snd (fst (augmentHostWithNgcc ts host ngcc moduleResolutionCache)
                 (take i names) containingFile reusedNames redirectedReference options s))))"
    if "i < length names"
    using that by (simp add: run arrayMap_take_Suc wld arrayMap_nth)
qed

lemma ngcc_directives_run:
  fixes ts :: "('w, 'v) ts"
  shows "length (fst (snd (augmentHostWithNgcc ts host ngcc moduleResolutionCache)
            names containingFile redirectedReference options s)) = length names"
    and "i < length names \<Longrightarrow>
         fst (snd (augmentHostWithNgcc ts host ngcc moduleResolutionCache)
            names containingFile redirectedReference options s) ! i =
         resolveOneDirective ts host (names ! i) containingFile redirectedReference options
           (world (snd (snd (augmentHostWithNgcc ts host ngcc moduleResolutionCache)
              (take i names) containingFile redirectedReference options s)))"
    and "calls (snd (snd (augmentHostWithNgcc ts host ngcc moduleResolutionCache)
            names containingFile redirectedReference options s)) =
         calls s @ concat (map (\<lambda>(name, x).
             (case resolveTypeReferenceDirectives host of
                Some base \<Rightarrow>
                  BaseResolveTypeReferenceDirectives [name] containingFile redirectedReference
                    options
              | None \<Rightarrow>
                  TsResolveTypeReferenceDirective name containingFile options
                    redirectedReference)
             # processCalls ngcc name (map_option Inr x))
           (zip names (fst (snd (augmentHostWithNgcc ts host ngcc moduleResolutionCache)
              names containingFile redirectedReference options s))))"
    and "i < length names \<Longrightarrow>
         world (snd (snd (augmentHostWithNgcc ts host ngcc moduleResolutionCache)
            (take (Suc i) names) containingFile redirectedReference options s)) =
         processedWorld ngcc (names ! i)
           (map_option Inr
              (fst (snd (augmentHostWithNgcc ts host ngcc moduleResolutionCache)
                 names containingFile redirectedReference options s) ! i))
           (worldAfterDirective ts host (names ! i) containingFile redirectedReference options
              (world (snd (snd (augmentHostWithNgcc ts host ngcc moduleResolutionCache)
                 (take i names) containingFile redirectedReference options s))))"
proof -
  obtain cb where
    run: "\<And>names s. snd (augmentHostWithNgcc ts host ngcc moduleResolutionCache)
        names containingFile redirectedReference options s = arrayMap cb names s"
    and res: "\<And>name s. fst (cb name s) =
        (case resolveTypeReferenceDirectives host of
           Some base \<Rightarrow>
             firstResult (fst (base [name] containingFile redirectedReference options (world s)))
         | None \<Rightarrow>
             fst (resolveTypeReferenceDirective ts name containingFile options
                redirectedReference (world s)))"
    and log: "\<And>name s. calls (snd (cb name s)) =
        calls s @
        (case resolveTypeReferenceDirectives host of
           Some base \<Rightarrow>
             BaseResolveTypeReferenceDirectives [name] containingFile redirectedReference options
         | None \<Rightarrow>
             TsResolveTypeReferenceDirective name containingFile options redirectedReference)
        # processCalls ngcc name (map_option Inr (fst (cb name s)))"
    and wld: "\<And>name s. world (snd (cb name s)) =
        processedWorld ngcc name (map_option Inr (fst (cb name s)))
          (worldAfterDirective ts host name containingFile redirectedReference options (world s))"
    by (rule ngcc_directives_callback[where ts = ts and host = host and ngcc = ngcc
          and moduleResolutionCache = moduleResolutionCache and containingFile = containingFile
          and redirectedReference = redirectedReference and options = options]) blast
  show "length (fst (snd (augmentHostWithNgcc ts host ngcc moduleResolutionCache)
            names containingFile redirectedReference options s)) = length names"
    by (simp add: run arrayMap_length)
  show "fst (snd (augmentHostWithNgcc ts host ngcc moduleResolutionCache)
            names containingFile redirectedReference options s) ! i =
         resolveOneDirective ts host (names ! i) containingFile redirectedReference options
           (world (snd (snd (augmentHostWithNgcc ts host ngcc moduleResolutionCache)
              (take i names) containingFile redirectedReference options s)))"
    if "i < length names"
    using that by (simp add: run arrayMap_nth res resolveOneDirective_def)
  show "calls (snd (snd (augmentHostWithNgcc ts host ngcc moduleResolutionCache)
            names containingFile redirectedReference options s)) =
         calls s @ concat (map (\<lambda>(name, x).
             (case resolveTypeReferenceDirectives host of
                Some base \<Rightarrow>
                  BaseResolveTypeReferenceDirectives [name] containingFile redirectedReference
                    options
              | None \<Rightarrow>
                  TsResolveTypeReferenceDirective name containingFile options
                    redirectedReference)
             # processCalls ngcc name (map_option Inr x))
           (zip names (fst (snd (augmentHostWithNgcc ts host ngcc moduleResolutionCache)
              names containingFile redirectedReference options s))))"
    unfolding run by (rule arrayMap_calls) (rule log)
  show "world (snd (snd (augmentHostWithNgcc ts host ngcc moduleResolutionCache)
            (take (Suc i) names) containingFile redirectedReference options s)) =
         processedWorld ngcc (names ! i)
           (map_option Inr
              (fst (snd (augmentHostWithNgcc ts host ngcc moduleResolutionCache)
                 names containingFile redirectedReference options s) ! i))
           (worldAfterDirective ts host (names ! i) containingFile redirectedReference options
              (world (snd (snd (augmentHostWithNgcc ts host ngcc moduleResolutionCache)
                 (take i names) containingFile redirectedReference options s))))"
    if "i < length names"
    using that by (simp add: run arrayMap_take_Suc wld arrayMap_nth)
qed

lemma collection_wrapped:
  assumes "resolveModuleNames host = Some base"
  shows "augmentHostWithDependencyCollection ts normalizePath host moduleResolutionCache
           names containingFile reusedNames redirectedReference options s =
         (let answer = base names containingFile reusedNames redirectedReference options (world s);
              sA = s\<lparr>world := snd answer,
                     calls := calls s @ [BaseResolveModuleNames names containingFile reusedNames
                                           redirectedReference options]\<rparr>
          in case normalizePath containingFile of
               Inl e \<Rightarrow> (Inl e, sA)
             | Inr p \<Rightarrow>
                 (Inr (fst answer),
                  sA\<lparr>dependencies := recordResults p (fst answer) (dependencies s)\<rparr>))"
  by (simp add: augmentHostWithDependencyCollection_def assms invoke_def Let_def
      split: prod.splits sum.splits)

lemma collection_fallback_callback:
  assumes "resolveModuleNames host = None" and "normalizePath containingFile = Inr p"
  obtains cb where
    "\<And>names s. augmentHostWithDependencyCollection (ts :: ('w, 'v) ts) normalizePath host moduleResolutionCache
        names containingFile reusedNames redirectedReference options s =
        (Inr (fst (arrayMap cb names s)), snd (arrayMap cb names s))"
    and "\<And>name s. fst (cb name s) =
        fst (resolveModuleName ts name containingFile options moduleResolutionCache
               redirectedReference (world s))"
    and "\<And>name s. calls (snd (cb name s)) =
        calls s @ [TsResolveModuleName name containingFile options moduleResolutionCache
                     redirectedReference]"
    and "\<And>name s. dependencies (snd (cb name s)) =
        (case fst (cb name s) of
           Some r \<Rightarrow> addDependency p (resolvedFileName r) (dependencies s)
         | None \<Rightarrow> dependencies s)"
    and "\<And>name s. cache (snd (cb name s)) = cache s"
proof -
  let ?cb = "\<lambda>name s.
     case invoke
            (TsResolveModuleName name containingFile options
               moduleResolutionCache redirectedReference)
            (resolveModuleName ts name containingFile options
               moduleResolutionCache redirectedReference) s of
       (result, sA) \<Rightarrow>
         (result,
          case result of
            Some r \<Rightarrow>
              sA\<lparr>dependencies := addDependency p (resolvedFileName r) (dependencies sA)\<rparr>
          | None \<Rightarrow> sA)"
  show thesis
  proof (rule that[of ?cb])
    fix names :: "string list" and s :: "('w, 'v) state"
    show "augmentHostWithDependencyCollection ts normalizePath host moduleResolutionCache
        names containingFile reusedNames redirectedReference options s =
        (Inr (fst (arrayMap ?cb names s)), snd (arrayMap ?cb names s))"
      unfolding augmentHostWithDependencyCollection_def assms option.case sum.case
      by (rule arrayMapE_total) (simp split: prod.splits option.splits)
  next
    fix name :: string and s :: "('w, 'v) state"
    show "fst (?cb name s) =
        fst (resolveModuleName ts name containingFile options moduleResolutionCache
               redirectedReference (world s))"
      by (simp add: invoke_def split: prod.splits)
    show "calls (snd (?cb name s)) =
        calls s @ [TsResolveModuleName name containingFile options moduleResolutionCache
                     redirectedReference]"
      by (simp add: invoke_def split: prod.splits option.splits)
    show "dependencies (snd (?cb name s)) =
        (case fst (?cb name s) of
           Some r \<Rightarrow> addDependency p (resolvedFileName r) (dependencies s)
         | None \<Rightarrow> dependencies s)"
      by (simp add: invoke_def split: prod.splits option.splits)
    show "cache (snd (?cb name s)) = cache s"
      by (simp add: invoke_def split: prod.splits option.splits)
  qed
qed

lemma collection_fallback_rejecting:
  assumes "resolveModuleNames host = None" and "normalizePath containingFile = Inl e"
  shows "dependencies (snd (augmentHostWithDependencyCollection ts normalizePath host
            moduleResolutionCache names containingFile reusedNames redirectedReference
            options s)) = dependencies s"
  unfolding augmentHostWithDependencyCollection_def assms option.case sum.case
  by (rule arrayMapE_preserves[where P = "\<lambda>t. dependencies t = dependencies s"])
     (simp_all add: invoke_def split: prod.splits option.splits)

lemma collection_graph:
  fixes ts :: "('w, 'v) ts"
  assumes r_def: "r = augmentHostWithDependencyCollection ts normalizePath host moduleResolutionCache
                 names containingFile reusedNames redirectedReference options s"
  shows "case fst r of
           Inl e \<Rightarrow> dependencies (snd r) = dependencies s
         | Inr results \<Rightarrow>
             (case normalizePath containingFile of
                Inl e \<Rightarrow> dependencies (snd r) = dependencies s
              | Inr p \<Rightarrow> dependencies (snd r) = recordResults p results (dependencies s))"
proof (cases "resolveModuleNames host")
  case (Some base)
  show ?thesis
    unfolding r_def collection_wrapped[OF Some]
    by (simp add: Let_def split: sum.splits)
next
  case None
  show ?thesis
  proof (cases "normalizePath containingFile")
    case (Inl e)
    have "dependencies (snd r) = dependencies s"
      unfolding r_def by (rule collection_fallback_rejecting
            [where normalizePath = normalizePath and containingFile = containingFile,
             OF None Inl])
    with Inl show ?thesis by (simp split: sum.splits)
  next
    case (Inr p)
    obtain cb where
      run: "\<And>names s. augmentHostWithDependencyCollection ts normalizePath host
          moduleResolutionCache names containingFile reusedNames redirectedReference options s =
          (Inr (fst (arrayMap cb names s)), snd (arrayMap cb names s))"
      and deps: "\<And>name s. dependencies (snd (cb name s)) =
          (case fst (cb name s) of
             Some r \<Rightarrow> addDependency p (resolvedFileName r) (dependencies s)
           | None \<Rightarrow> dependencies s)"
      by (rule collection_fallback_callback
            [where normalizePath = normalizePath and containingFile = containingFile
               and ts = ts and moduleResolutionCache = moduleResolutionCache
               and reusedNames = reusedNames and redirectedReference = redirectedReference
               and options = options, OF None Inr]) blast
    show ?thesis
      unfolding r_def run by (simp add: Inr arrayMap_recordResults[of cb p, OF deps])
  qed
qed



lemma caching_hit:
  assumes "\<not> truthy shouldCreateNewSourceFile" and "cache s fileName = Some f"
  shows "augmentHostWithCaching host fileName languageVersion onError
           shouldCreateNewSourceFile parameters s = (Some f, s)"
  using assms by (simp add: augmentHostWithCaching_def)

lemma caching_delegates:
  assumes "truthy shouldCreateNewSourceFile \<or> cache s fileName = None"
  shows "augmentHostWithCaching host fileName languageVersion onError
           shouldCreateNewSourceFile parameters s =
         (let answer = getSourceFile host fileName languageVersion onError (Some True)
                         parameters (world s);
              sA = s\<lparr>world := snd answer,
                     calls := calls s @ [BaseGetSourceFile fileName languageVersion onError
                                           (Some True) parameters]\<rparr>
          in (fst answer,
              case fst answer of
                Some f \<Rightarrow> sA\<lparr>cache := (cache s)(fileName \<mapsto> f)\<rparr>
              | None \<Rightarrow> sA))"
  using assms
  by (auto simp: augmentHostWithCaching_def invoke_def Let_def split: prod.splits option.splits)

subsection \<open>The example\<close>

lemmas example_defs =
  exampleTs_def exampleBareHost_def exampleBatchedHost_def exampleNgcc_def exampleState_def
  exampleModule_def exampleDirective_def exampleSourceFile_def

lemmas run_defs =
  augmentHostWithDependencyCollection_def augmentHostWithNgcc_def
  augmentResolveModuleNames_def augmentHostWithCaching_def invoke_def processIfPresent_def
  addDependency_def firstResult_def truthy_def

lemma normalizePathSpec_idempotent:
  "normalizePathSpec path = Inr key \<Longrightarrow> isNormalized normalizePathSpec key"
  by (auto simp: normalizePathSpec_def isNormalized_def)

section \<open>Properties of the wrapped operations\<close>

text \<open>
  Claim C1, amended. The ngcc operations for module names and for type reference
  directives, over a host with or without resolvers of its own, return exactly one result
  per name: entry \<open>i\<close> is what the host's surface answers for name \<open>i\<close> in the world
  reached after the first \<open>i\<close> names. The dependency collector returns a list unless the
  normaliser throws: its outcome is an exception only when the normaliser rejects the
  containing file. Over a host's own batched resolver the list is that resolver's answer as
  it is, of whatever length; in the fallback it has exactly one entry per name, entry \<open>i\<close>
  being the answer of \<^verbatim>\<open>ts.resolveModuleName\<close> for name \<open>i\<close> in the world reached after
  the first \<open>i\<close> names.
\<close>

theorem result_shape_preserved:
  fixes ts :: "('w, 'v) ts"
  shows
  "(let run = augmentHostWithDependencyCollection ts normalizePath depHost
                moduleResolutionCache
    in case fst (run names containingFile reusedNames redirectedReference options s) of
         Inl e \<Rightarrow> normalizePath containingFile = Inl e
       | Inr results \<Rightarrow>
           (case resolveModuleNames depHost of
              Some base \<Rightarrow>
                results = fst (base names containingFile reusedNames redirectedReference
                                 options (world s))
            | None \<Rightarrow>
                length results = length names
                \<and> (\<forall>i < length names.
                      results ! i =
                        fst (resolveModuleName ts (names ! i) containingFile options
                               moduleResolutionCache redirectedReference
                               (world (snd (run (take i names) containingFile reusedNames
                                              redirectedReference options s)))))))
   \<and> (let run = fst (augmentHostWithNgcc ts ngccHost ngcc moduleResolutionCache);
          r = run names containingFile reusedNames redirectedReference options s
      in length (fst r) = length names
         \<and> (\<forall>i < length names.
              fst r ! i =
                resolveOneModule ts ngccHost moduleResolutionCache (names ! i) containingFile
                  reusedNames redirectedReference options
                  (world (snd (run (take i names) containingFile reusedNames
                                 redirectedReference options s)))))
   \<and> (let run = snd (augmentHostWithNgcc ts ngccHost ngcc moduleResolutionCache);
          r = run names containingFile redirectedReference options s
      in length (fst r) = length names
         \<and> (\<forall>i < length names.
              fst r ! i =
                resolveOneDirective ts ngccHost (names ! i) containingFile redirectedReference
                  options
                  (world (snd (run (take i names) containingFile redirectedReference
                                 options s)))))"
proof (intro conjI)
  show "let run = augmentHostWithDependencyCollection ts normalizePath depHost
                moduleResolutionCache
    in case fst (run names containingFile reusedNames redirectedReference options s) of
         Inl e \<Rightarrow> normalizePath containingFile = Inl e
       | Inr results \<Rightarrow>
           (case resolveModuleNames depHost of
              Some base \<Rightarrow>
                results = fst (base names containingFile reusedNames redirectedReference
                                 options (world s))
            | None \<Rightarrow>
                length results = length names
                \<and> (\<forall>i < length names.
                      results ! i =
                        fst (resolveModuleName ts (names ! i) containingFile options
                               moduleResolutionCache redirectedReference
                               (world (snd (run (take i names) containingFile reusedNames
                                              redirectedReference options s))))))"
  proof (cases "resolveModuleNames depHost")
    case (Some base)
    show ?thesis
      by (simp add: collection_wrapped[OF Some] Let_def Some split: sum.splits)
  next
    case None
    define cb where "cb = (\<lambda>name (s :: ('w, 'v) state).
       case invoke
              (TsResolveModuleName name containingFile options
                 moduleResolutionCache redirectedReference)
              (resolveModuleName ts name containingFile options
                 moduleResolutionCache redirectedReference) s of
         (result, sA) \<Rightarrow>
           (case result of
              Some r \<Rightarrow>
                (case normalizePath containingFile of
                   Inl e \<Rightarrow> (Inl e, sA)
                 | Inr containingFilePath \<Rightarrow>
                     (Inr result,
                      sA\<lparr>dependencies :=
                           addDependency containingFilePath (resolvedFileName r)
                             (dependencies sA)\<rparr>))
            | None \<Rightarrow> (Inr result, sA)))"
    have run: "augmentHostWithDependencyCollection ts normalizePath depHost
        moduleResolutionCache names containingFile reusedNames redirectedReference options s =
        arrayMapE cb names s" for names s
      by (simp add: augmentHostWithDependencyCollection_def None cb_def)
    have thrown: "normalizePath containingFile = Inl e" if "fst (cb name s) = Inl e"
      for name s e
      using that
      by (auto simp: cb_def invoke_def split: prod.splits option.splits sum.splits)
    have answered: "fst (cb name s) = Inr r \<Longrightarrow>
        r = fst (resolveModuleName ts name containingFile options moduleResolutionCache
                   redirectedReference (world s))" for name s r
      by (auto simp: cb_def invoke_def split: prod.splits option.splits sum.splits)
    show ?thesis
    proof (cases "fst (arrayMapE cb names s)")
      case (Inl e)
      have "normalizePath containingFile = Inl e"
        by (rule arrayMapE_Inl[where f = cb and xs = names and s = s
              and P = "\<lambda>e. normalizePath containingFile = Inl e", OF thrown Inl])
      with Inl show ?thesis by (simp add: Let_def run)
    next
      case (Inr results)
      have len: "length results = length names"
        by (rule arrayMapE_Inr_length[OF Inr])
      have nth: "results ! i =
          fst (resolveModuleName ts (names ! i) containingFile options
                 moduleResolutionCache redirectedReference
                 (world (snd (arrayMapE cb (take i names) s))))" if "i < length names" for i
        by (rule answered[OF arrayMapE_Inr_nth[OF Inr that]])
      from len nth Inr show ?thesis by (simp add: Let_def run None)
    qed
  qed
next
  show "let run = fst (augmentHostWithNgcc ts ngccHost ngcc moduleResolutionCache);
          r = run names containingFile reusedNames redirectedReference options s
      in length (fst r) = length names
         \<and> (\<forall>i < length names.
              fst r ! i =
                resolveOneModule ts ngccHost moduleResolutionCache (names ! i) containingFile
                  reusedNames redirectedReference options
                  (world (snd (run (take i names) containingFile reusedNames
                                 redirectedReference options s))))"
    unfolding Let_def by (intro conjI allI impI) (simp_all only: ngcc_modules_run(1,2))
next
  show "let run = snd (augmentHostWithNgcc ts ngccHost ngcc moduleResolutionCache);
          r = run names containingFile redirectedReference options s
      in length (fst r) = length names
         \<and> (\<forall>i < length names.
              fst r ! i =
                resolveOneDirective ts ngccHost (names ! i) containingFile redirectedReference
                  options
                  (world (snd (run (take i names) containingFile redirectedReference
                                 options s))))"
    unfolding Let_def by (intro conjI allI impI) (simp_all only: ngcc_directives_run(1,2))
qed

theorem result_shape_preserved_witness:
  "fst (augmentHostWithDependencyCollection exampleTs normalizePathSpec exampleBatchedHost None
          [''pkg-a'', ''pkg-b''] ''/src/app.ts'' 0 0 0 exampleState)
     = Inr [Some \<lparr>resolvedFileName = ''/node_modules/pkg-a/index.d.ts''\<rparr>, None]
   \<and> fst (augmentHostWithDependencyCollection exampleTs normalizePathSpec exampleBareHost None
          [''pkg-a'', ''pkg-b''] ''/src/app.ts'' 0 0 0 exampleState)
     = Inr [Some \<lparr>resolvedFileName = ''/node_modules/pkg-a/index.d.ts''\<rparr>, None]
   \<and> fst (augmentHostWithDependencyCollection exampleTs rejectingNormalizePath exampleBareHost
          None [''pkg-b'', ''pkg-b''] ''/src/app.ts'' 0 0 0 exampleState)
     = Inr [None, None]
   \<and> fst (fst (augmentHostWithNgcc exampleTs exampleBatchedHost (Some exampleNgcc) None)
          [''pkg-a'', ''pkg-b''] ''/src/app.ts'' 0 0 0 exampleState)
     = [Some \<lparr>resolvedFileName = ''/node_modules/pkg-a/index.d.ts''\<rparr>, None]
   \<and> fst (snd (augmentHostWithNgcc exampleTs exampleBareHost (Some exampleNgcc) None)
          [''node'', ''jest''] ''/src/app.ts'' 0 0 exampleState)
     = [Some \<lparr>primary = True,
                directiveFileName = Some ''/node_modules/@types/node/index.d.ts''\<rparr>, None]"
  using result_shape_preserved
          [where ts = exampleTs and normalizePath = normalizePathSpec
             and depHost = exampleBatchedHost and ngccHost = exampleBatchedHost
             and ngcc = "Some exampleNgcc" and moduleResolutionCache = None
             and names = "[''pkg-a'', ''pkg-b'']" and containingFile = "''/src/app.ts''"
             and reusedNames = 0 and redirectedReference = 0 and options = 0
             and s = exampleState]
        result_shape_preserved
          [where ts = exampleTs and normalizePath = normalizePathSpec
             and depHost = exampleBareHost and ngccHost = exampleBareHost
             and ngcc = "Some exampleNgcc" and moduleResolutionCache = None
             and names = "[''pkg-a'', ''pkg-b'']" and containingFile = "''/src/app.ts''"
             and reusedNames = 0 and redirectedReference = 0 and options = 0
             and s = exampleState]
        result_shape_preserved
          [where ts = exampleTs and normalizePath = rejectingNormalizePath
             and depHost = exampleBareHost and ngccHost = exampleBareHost
             and ngcc = "Some exampleNgcc" and moduleResolutionCache = None
             and names = "[''pkg-b'', ''pkg-b'']" and containingFile = "''/src/app.ts''"
             and reusedNames = 0 and redirectedReference = 0 and options = 0
             and s = exampleState]
        result_shape_preserved
          [where ts = exampleTs and normalizePath = normalizePathSpec
             and depHost = exampleBareHost and ngccHost = exampleBareHost
             and ngcc = "Some exampleNgcc" and moduleResolutionCache = None
             and names = "[''node'', ''jest'']" and containingFile = "''/src/app.ts''"
             and reusedNames = 0 and redirectedReference = 0 and options = 0
             and s = exampleState]
  by (simp add: run_defs example_defs normalizePathSpec_def rejectingNormalizePath_def)

text \<open>
  The claim as first stated fails for the collector: over a resolver that answers with
  fewer entries than there are names it returns the short answer, and with a normaliser
  that rejects the containing file it returns no list at all.
\<close>

theorem result_shape_counterexample:
  "fst (augmentHostWithDependencyCollection exampleTs normalizePathSpec exampleShortHost None
          [''pkg-a'', ''pkg-b''] ''/src/app.ts'' 0 0 0 exampleState)
     = Inr []
   \<and> fst (augmentHostWithDependencyCollection exampleTs rejectingNormalizePath
            exampleBatchedHost None [''pkg-a'', ''pkg-b''] ''/src/app.ts'' 0 0 0 exampleState)
     = Inl (NormalizePathError ''/src/app.ts'')
   \<and> fst (augmentHostWithDependencyCollection exampleTs rejectingNormalizePath
            exampleBareHost None [''pkg-a'', ''pkg-b''] ''/src/app.ts'' 0 0 0 exampleState)
     = Inl (NormalizePathError ''/src/app.ts'')"
  by (simp add: augmentHostWithDependencyCollection_def invoke_def exampleTs_def
      exampleShortHost_def exampleBatchedHost_def exampleBareHost_def exampleState_def
      exampleModule_def normalizePathSpec_def rejectingNormalizePath_def)

text \<open>
  Claim C2. With an ngcc processor, one resolution through the ngcc wrappers passes each
  present result to \<^verbatim>\<open>processModule\<close> exactly once, and no absent result. The calls of
  \<^verbatim>\<open>processModule\<close> that it adds to the log are exactly one per name whose result is
  present, in the order of the names, with that name and that result. The world after each
  name is the world that the lookup of the name left, with \<^verbatim>\<open>processModule\<close> applied to
  it once, for that name and that result, when the result is present, and left as it is
  when the result is absent. Every result is returned as it was resolved, an absent one as
  absent. This holds for module names and for type reference directives, over a host with
  or without resolvers of its own.
\<close>

theorem post_processing_pass_through:
  fixes ts :: "('w, 'v) ts"
  shows
  "(let run = fst (augmentHostWithNgcc ts host (Some ngcc) moduleResolutionCache);
        r = run names containingFile reusedNames redirectedReference options s
    in filter isProcessModule (calls (snd r)) =
         filter isProcessModule (calls s) @
         concat (map (\<lambda>(name, x). case x of None \<Rightarrow> []
                                  | Some m \<Rightarrow> [NgccProcessModule name (Inl m)])
                   (zip names (fst r)))
       \<and> (\<forall>i < length names.
            fst r ! i =
              resolveOneModule ts host moduleResolutionCache (names ! i) containingFile
                reusedNames redirectedReference options
                (world (snd (run (take i names) containingFile reusedNames redirectedReference
                               options s)))
            \<and> world (snd (run (take (Suc i) names) containingFile reusedNames
                             redirectedReference options s)) =
                (let looked =
                       worldAfterModule ts host moduleResolutionCache (names ! i)
                         containingFile reusedNames redirectedReference options
                         (world (snd (run (take i names) containingFile reusedNames
                                        redirectedReference options s)))
                 in case fst r ! i of
                      None \<Rightarrow> looked
                    | Some m \<Rightarrow> processModule ngcc (names ! i) (Inl m) looked)))
   \<and> (let run = snd (augmentHostWithNgcc ts host (Some ngcc) moduleResolutionCache);
          r = run names containingFile redirectedReference options s
      in filter isProcessModule (calls (snd r)) =
           filter isProcessModule (calls s) @
           concat (map (\<lambda>(name, x). case x of None \<Rightarrow> []
                                    | Some d \<Rightarrow> [NgccProcessModule name (Inr d)])
                     (zip names (fst r)))
         \<and> (\<forall>i < length names.
              fst r ! i =
                resolveOneDirective ts host (names ! i) containingFile redirectedReference
                  options
                  (world (snd (run (take i names) containingFile redirectedReference
                                 options s)))
              \<and> world (snd (run (take (Suc i) names) containingFile redirectedReference
                               options s)) =
                  (let looked =
                         worldAfterDirective ts host (names ! i) containingFile
                           redirectedReference options
                           (world (snd (run (take i names) containingFile redirectedReference
                                          options s)))
                   in case fst r ! i of
                        None \<Rightarrow> looked
                      | Some d \<Rightarrow> processModule ngcc (names ! i) (Inr d) looked)))"
proof -
  have chunkM: "filter isProcessModule
        ((case resolveModuleNames host of
            Some base \<Rightarrow>
              BaseResolveModuleNames [name] containingFile reusedNames redirectedReference options
          | None \<Rightarrow>
              TsResolveModuleName name containingFile options moduleResolutionCache
                redirectedReference)
         # processCalls (Some ngcc) name (map_option Inl x)) =
      (case x of None \<Rightarrow> [] | Some m \<Rightarrow> [NgccProcessModule name (Inl m)])" for name x
    by (simp add: filter_processCalls isProcessModule_def split: option.splits)
  have chunkD: "filter isProcessModule
        ((case resolveTypeReferenceDirectives host of
            Some base \<Rightarrow>
              BaseResolveTypeReferenceDirectives [name] containingFile redirectedReference options
          | None \<Rightarrow>
              TsResolveTypeReferenceDirective name containingFile options redirectedReference)
         # processCalls (Some ngcc) name (map_option Inr x)) =
      (case x of None \<Rightarrow> [] | Some d \<Rightarrow> [NgccProcessModule name (Inr d)])" for name x
    by (simp add: filter_processCalls isProcessModule_def split: option.splits)
  have worldM: "processedWorld (Some ngcc) name (map_option Inl x) w =
      (case x of None \<Rightarrow> w | Some m \<Rightarrow> processModule ngcc name (Inl m) w)" for name x w
    by (simp add: processedWorld_def split: option.splits)
  have worldD: "processedWorld (Some ngcc) name (map_option Inr x) w =
      (case x of None \<Rightarrow> w | Some d \<Rightarrow> processModule ngcc name (Inr d) w)" for name x w
    by (simp add: processedWorld_def split: option.splits)
  let ?M = "fst (augmentHostWithNgcc ts host (Some ngcc) moduleResolutionCache)"
  let ?D = "snd (augmentHostWithNgcc ts host (Some ngcc) moduleResolutionCache)"
  have logM: "filter isProcessModule
        (calls (snd (?M names containingFile reusedNames redirectedReference options s))) =
      filter isProcessModule (calls s) @
      concat (map (\<lambda>(name, x). case x of None \<Rightarrow> []
                               | Some m \<Rightarrow> [NgccProcessModule name (Inl m)])
                (zip names
                   (fst (?M names containingFile reusedNames redirectedReference options s))))"
    by (simp only: ngcc_modules_run(3) filter_append filter_concat_pairs chunkM)
  have logD: "filter isProcessModule
        (calls (snd (?D names containingFile redirectedReference options s))) =
      filter isProcessModule (calls s) @
      concat (map (\<lambda>(name, x). case x of None \<Rightarrow> []
                               | Some d \<Rightarrow> [NgccProcessModule name (Inr d)])
                (zip names (fst (?D names containingFile redirectedReference options s))))"
    by (simp only: ngcc_directives_run(3) filter_append filter_concat_pairs chunkD)
  have entryM: "fst (?M names containingFile reusedNames redirectedReference options s) ! i =
      resolveOneModule ts host moduleResolutionCache (names ! i) containingFile
        reusedNames redirectedReference options
        (world (snd (?M (take i names) containingFile reusedNames redirectedReference
                       options s)))"
    if "i < length names" for i
    using that by (rule ngcc_modules_run(2))
  have entryD: "fst (?D names containingFile redirectedReference options s) ! i =
      resolveOneDirective ts host (names ! i) containingFile redirectedReference options
        (world (snd (?D (take i names) containingFile redirectedReference options s)))"
    if "i < length names" for i
    using that by (rule ngcc_directives_run(2))
  have afterM: "world (snd (?M (take (Suc i) names) containingFile reusedNames
        redirectedReference options s)) =
      (case fst (?M names containingFile reusedNames redirectedReference options s) ! i of
         None \<Rightarrow>
           worldAfterModule ts host moduleResolutionCache (names ! i)
             containingFile reusedNames redirectedReference options
             (world (snd (?M (take i names) containingFile reusedNames
                            redirectedReference options s)))
       | Some m \<Rightarrow>
           processModule ngcc (names ! i) (Inl m)
             (worldAfterModule ts host moduleResolutionCache (names ! i)
                containingFile reusedNames redirectedReference options
                (world (snd (?M (take i names) containingFile reusedNames
                               redirectedReference options s)))))"
    if "i < length names" for i
    using that by (simp only: ngcc_modules_run(4) worldM)
  have afterD: "world (snd (?D (take (Suc i) names) containingFile redirectedReference
        options s)) =
      (case fst (?D names containingFile redirectedReference options s) ! i of
         None \<Rightarrow>
           worldAfterDirective ts host (names ! i) containingFile redirectedReference options
             (world (snd (?D (take i names) containingFile redirectedReference options s)))
       | Some d \<Rightarrow>
           processModule ngcc (names ! i) (Inr d)
             (worldAfterDirective ts host (names ! i) containingFile redirectedReference
                options
                (world (snd (?D (take i names) containingFile redirectedReference
                               options s)))))"
    if "i < length names" for i
    using that by (simp only: ngcc_directives_run(4) worldD)
  from logM logD entryM entryD afterM afterD show ?thesis
    unfolding Let_def by blast
qed

theorem post_processing_pass_through_witness:
  "filter isProcessModule
     (calls (snd (fst (augmentHostWithNgcc exampleTs exampleBareHost (Some exampleNgcc) None)
                    [''pkg-a'', ''pkg-b''] ''/src/app.ts'' 0 0 0 exampleState)))
     = [NgccProcessModule ''pkg-a''
          (Inl \<lparr>resolvedFileName = ''/node_modules/pkg-a/index.d.ts''\<rparr>)]
   \<and> fst (fst (augmentHostWithNgcc exampleTs exampleBareHost (Some exampleNgcc) None)
             [''pkg-a'', ''pkg-b''] ''/src/app.ts'' 0 0 0 exampleState)
     = [Some \<lparr>resolvedFileName = ''/node_modules/pkg-a/index.d.ts''\<rparr>, None]
   \<and> world (snd (fst (augmentHostWithNgcc exampleTs exampleBareHost (Some exampleNgcc) None)
                    [''pkg-a''] ''/src/app.ts'' 0 0 0 exampleState)) = 101
   \<and> world (snd (fst (augmentHostWithNgcc exampleTs exampleBareHost (Some exampleNgcc) None)
                    [''pkg-a'', ''pkg-b''] ''/src/app.ts'' 0 0 0 exampleState)) = 102
   \<and> filter isProcessModule
     (calls (snd (snd (augmentHostWithNgcc exampleTs exampleBatchedHost (Some exampleNgcc) None)
                    [''node'', ''jest''] ''/src/app.ts'' 0 0 exampleState)))
     = [NgccProcessModule ''node''
          (Inr \<lparr>primary = True,
                 directiveFileName = Some ''/node_modules/@types/node/index.d.ts''\<rparr>)]
   \<and> world (snd (snd (augmentHostWithNgcc exampleTs exampleBatchedHost (Some exampleNgcc) None)
                    [''node'', ''jest''] ''/src/app.ts'' 0 0 exampleState)) = 102"
  using post_processing_pass_through
          [where ts = exampleTs and host = exampleBareHost and ngcc = exampleNgcc
             and moduleResolutionCache = None and names = "[''pkg-a'', ''pkg-b'']"
             and containingFile = "''/src/app.ts''" and reusedNames = 0
             and redirectedReference = 0 and options = 0 and s = exampleState]
        post_processing_pass_through
          [where ts = exampleTs and host = exampleBatchedHost and ngcc = exampleNgcc
             and moduleResolutionCache = None and names = "[''node'', ''jest'']"
             and containingFile = "''/src/app.ts''" and reusedNames = 0
             and redirectedReference = 0 and options = 0 and s = exampleState]
  by (simp add: run_defs example_defs isProcessModule_def)

text \<open>
  Claim C3, amended. When a retrieval without the force-fresh flag has returned a handle,
  the next retrieval of the same file name without the flag returns that same handle and
  leaves the state, and with it the call log, as it is, whatever its other arguments are.
  A retrieval with the flag calls the delegate, also when the cache has an entry, and
  returns the delegate's answer. Every call of the delegate asks for a new read.
\<close>

theorem cache_transparency:
  "(\<not> truthy flagA \<and> \<not> truthy flagB
      \<and> fst (augmentHostWithCaching host fileName languageVersionA onErrorA flagA
                parametersA s) = Some f
     \<longrightarrow> augmentHostWithCaching host fileName languageVersionB onErrorB flagB parametersB
           (snd (augmentHostWithCaching host fileName languageVersionA onErrorA flagA
                   parametersA s))
         = (Some f,
            snd (augmentHostWithCaching host fileName languageVersionA onErrorA flagA
                   parametersA s)))
   \<and> (truthy flag
     \<longrightarrow> calls (snd (augmentHostWithCaching host fileName languageVersion onError flag
                       parameters s))
           = calls s @ [BaseGetSourceFile fileName languageVersion onError (Some True)
                          parameters]
         \<and> fst (augmentHostWithCaching host fileName languageVersion onError flag
                  parameters s)
           = fst (getSourceFile host fileName languageVersion onError (Some True) parameters
                    (world s)))
   \<and> (calls (snd (augmentHostWithCaching host fileName languageVersion onError flag
                     parameters s)) = calls s
      \<or> calls (snd (augmentHostWithCaching host fileName languageVersion onError flag
                     parameters s))
           = calls s @ [BaseGetSourceFile fileName languageVersion onError (Some True)
                          parameters])"
proof (intro conjI impI)
  assume a: "\<not> truthy flagA \<and> \<not> truthy flagB
      \<and> fst (augmentHostWithCaching host fileName languageVersionA onErrorA flagA
                parametersA s) = Some f"
  let ?first = "augmentHostWithCaching host fileName languageVersionA onErrorA flagA
                parametersA s"
  have "cache (snd ?first) fileName = Some f"
  proof (cases "cache s fileName")
    case None
    then have "truthy flagA \<or> cache s fileName = None" by simp
    from caching_delegates[OF this] a show ?thesis
      by (simp add: Let_def split: option.splits)
  next
    case (Some g)
    with a have "?first = (Some g, s)" by (simp add: caching_hit)
    with a Some show ?thesis by simp
  qed
  with a show "augmentHostWithCaching host fileName languageVersionB onErrorB flagB parametersB
           (snd ?first) = (Some f, snd ?first)"
    by (simp add: caching_hit)
next
  assume t: "truthy flag"
  then have d: "truthy flag \<or> cache s fileName = None" by simp
  show "calls (snd (augmentHostWithCaching host fileName languageVersion onError flag
                       parameters s))
           = calls s @ [BaseGetSourceFile fileName languageVersion onError (Some True)
                          parameters]"
    by (simp add: caching_delegates[OF d] Let_def split: option.splits)
  show "fst (augmentHostWithCaching host fileName languageVersion onError flag
                  parameters s)
           = fst (getSourceFile host fileName languageVersion onError (Some True) parameters
                    (world s))"
    by (simp add: caching_delegates[OF d] Let_def)
next
  show "calls (snd (augmentHostWithCaching host fileName languageVersion onError flag
                     parameters s)) = calls s
      \<or> calls (snd (augmentHostWithCaching host fileName languageVersion onError flag
                     parameters s))
           = calls s @ [BaseGetSourceFile fileName languageVersion onError (Some True)
                          parameters]"
  proof (cases "truthy flag \<or> cache s fileName = None")
    case True
    show ?thesis by (simp add: caching_delegates[OF True] Let_def split: option.splits)
  next
    case False
    then show ?thesis by (auto simp: caching_hit)
  qed
qed

theorem cache_transparency_witness:
  "\<not> truthy None \<and> \<not> truthy (Some False) \<and> truthy (Some True)
   \<and> fst (augmentHostWithCaching exampleBareHost ''/src/app.ts'' 0 0 None [] exampleState)
     = Some 42
   \<and> augmentHostWithCaching exampleBareHost ''/src/app.ts'' 5 1 (Some False) [9]
       (snd (augmentHostWithCaching exampleBareHost ''/src/app.ts'' 0 0 None [] exampleState))
     = (Some 42,
        snd (augmentHostWithCaching exampleBareHost ''/src/app.ts'' 0 0 None [] exampleState))
   \<and> calls (snd (augmentHostWithCaching exampleBareHost ''/src/app.ts'' 0 0 (Some True) []
                    (exampleState\<lparr>cache := [''/src/app.ts'' \<mapsto> 7]\<rparr>)))
     = [BaseGetSourceFile ''/src/app.ts'' 0 0 (Some True) []]"
  using cache_transparency
          [where host = exampleBareHost and fileName = "''/src/app.ts''" and f = 42
             and flagA = None and flagB = "Some False" and s = exampleState
             and languageVersionA = 0 and onErrorA = 0 and parametersA = "[]"
             and languageVersionB = 5 and onErrorB = 1 and parametersB = "[9]"]
        cache_transparency
          [where host = exampleBareHost and fileName = "''/src/app.ts''"
             and flag = "Some True" and languageVersion = 0 and onError = 0
             and parameters = "[]"
             and s = "exampleState\<lparr>cache := [''/src/app.ts'' \<mapsto> 7]\<rparr>"]
  by (simp add: run_defs example_defs)

text \<open>
  The claim as first stated fails for a file that the host does not find: the first
  retrieval caches nothing, and the second one calls the delegate again.
\<close>

theorem cache_transparency_counterexample:
  "fst (augmentHostWithCaching exampleBareHost ''/src/gone.ts'' 0 0 None []
          (snd (augmentHostWithCaching exampleBareHost ''/src/gone.ts'' 0 0 None []
                  exampleState))) = None
   \<and> calls (snd (augmentHostWithCaching exampleBareHost ''/src/gone.ts'' 0 0 None []
          (snd (augmentHostWithCaching exampleBareHost ''/src/gone.ts'' 0 0 None []
                  exampleState))))
     = [BaseGetSourceFile ''/src/gone.ts'' 0 0 (Some True) [],
        BaseGetSourceFile ''/src/gone.ts'' 0 0 (Some True) []]"
  by (simp add: augmentHostWithCaching_def invoke_def truthy_def exampleBareHost_def
      exampleState_def exampleSourceFile_def)

text \<open>
  Claim C5, amended. One call of the collector adds to the graph, under the normalised path
  of the containing file, the file names of the present results as the resolutions give
  them, and changes nothing else: no key is removed and the only key that can be added is
  the normalised containing file. So when the outputs of the normaliser are normalised
  paths, a graph whose keys are normalised keeps normalised keys. The members are not
  passed through the normaliser.
\<close>

theorem dependency_graph_contents:
  fixes ts :: "('w, 'v) ts"
  shows
  "(let r = augmentHostWithDependencyCollection ts normalizePath host moduleResolutionCache
              names containingFile reusedNames redirectedReference options s
    in (\<forall>key. edges (dependencies (snd r)) key =
               edges (dependencies s) key \<union>
               (case fst r of
                  Inr results \<Rightarrow>
                    if normalizePath containingFile = Inr key then resolvedFiles results else {}
                | Inl e \<Rightarrow> {}))
       \<and> dom (dependencies s) \<subseteq> dom (dependencies (snd r))
       \<and> dom (dependencies (snd r))
           \<subseteq> dom (dependencies s) \<union> {key. normalizePath containingFile = Inr key}
       \<and> ((\<forall>path key. normalizePath path = Inr key \<longrightarrow> isNormalized normalizePath key)
            \<and> (\<forall>key \<in> dom (dependencies s). isNormalized normalizePath key)
           \<longrightarrow> (\<forall>key \<in> dom (dependencies (snd r)). isNormalized normalizePath key)))"
proof -
  define r where "r = augmentHostWithDependencyCollection ts normalizePath host
      moduleResolutionCache names containingFile reusedNames redirectedReference options s"
  note graph = collection_graph[OF r_def]
  have e: "edges (dependencies (snd r)) key =
               edges (dependencies s) key \<union>
               (case fst r of
                  Inr results \<Rightarrow>
                    if normalizePath containingFile = Inr key then resolvedFiles results else {}
                | Inl e \<Rightarrow> {})" for key
    using graph by (auto simp: edges_recordResults split: sum.splits)
  have lower: "dom (dependencies s) \<subseteq> dom (dependencies (snd r))"
    using graph dom_recordResults_mono[of "dependencies s"]
    by (auto split: sum.splits)
  have upper: "dom (dependencies (snd r))
           \<subseteq> dom (dependencies s) \<union> {key. normalizePath containingFile = Inr key}"
    using graph dom_recordResults[of _ _ "dependencies s"]
    by (auto split: sum.splits)
  have inv: "\<forall>key \<in> dom (dependencies (snd r)). isNormalized normalizePath key"
    if "\<forall>path key. normalizePath path = Inr key \<longrightarrow> isNormalized normalizePath key"
      and "\<forall>key \<in> dom (dependencies s). isNormalized normalizePath key"
    using that upper by blast
  from e lower upper inv show ?thesis
    unfolding r_def[symmetric] Let_def by blast
qed

theorem dependency_graph_contents_witness:
  "edges (dependencies
            (snd (augmentHostWithDependencyCollection exampleTs normalizePathSpec
                    exampleBareHost None [''pkg-a'', ''pkg-b''] ''/src/app.ts'' 0 0 0
                    exampleState))) ''/src/app.ts''
     = {''/node_modules/pkg-a/index.d.ts''}
   \<and> dom (dependencies
            (snd (augmentHostWithDependencyCollection exampleTs normalizePathSpec
                    exampleBareHost None [''pkg-a'', ''pkg-b''] ''/src/app.ts'' 0 0 0
                    exampleState)))
     = {''/src/app.ts''}
   \<and> isNormalized normalizePathSpec ''/src/app.ts''"
proof -
  have idem: "\<forall>path key. normalizePathSpec path = Inr key \<longrightarrow> isNormalized normalizePathSpec key"
    by (simp add: normalizePathSpec_idempotent)
  have start: "\<forall>key \<in> dom (dependencies exampleState). isNormalized normalizePathSpec key"
    by (simp add: exampleState_def)
  show ?thesis
    using dependency_graph_contents
            [where ts = exampleTs and normalizePath = normalizePathSpec
               and host = exampleBareHost and moduleResolutionCache = None
               and names = "[''pkg-a'', ''pkg-b'']" and containingFile = "''/src/app.ts''"
               and reusedNames = 0 and redirectedReference = 0 and options = 0
               and s = exampleState]
          idem start
    by (simp add: run_defs example_defs normalizePathSpec_def edges_def isNormalized_def)
qed

text \<open>
  A member need not be a normalised path: a resolution to a file name with a backslash is
  recorded with the backslash.
\<close>

theorem dependency_graph_normalized_counterexample:
  "dependencies
     (snd (augmentHostWithDependencyCollection exampleTs normalizePathSpec exampleBatchedHost
             None [''pkg-w''] ''/src/app.ts'' 0 0 0 exampleState)) ''/src/app.ts''
     = Some {''C:'' @ [CHR 0x5C] @ ''pkg-w.d.ts''}
   \<and> \<not> isNormalized normalizePathSpec (''C:'' @ [CHR 0x5C] @ ''pkg-w.d.ts'')"
  by (simp add: augmentHostWithDependencyCollection_def invoke_def exampleBatchedHost_def
      exampleState_def exampleModule_def normalizePathSpec_def addDependency_def
      isNormalized_def)

text \<open>
  Claim C6, amended. Over a host's own resolver, the collector returns the resolver's
  answer as it is when the normaliser accepts the containing file. When the normaliser
  throws, the exception is the outcome of the call, since nothing catches it; the resolver
  has been called by then, and the graph is unchanged.
\<close>

theorem recording_failure_propagates:
  fixes ts :: "('w, 'v) ts"
  assumes "resolveModuleNames host = Some base"
  shows
  "(let r = augmentHostWithDependencyCollection ts normalizePath host moduleResolutionCache
              names containingFile reusedNames redirectedReference options s;
        answer = base names containingFile reusedNames redirectedReference options (world s)
    in fst r = (case normalizePath containingFile of
                  Inl e \<Rightarrow> Inl e
                | Inr p \<Rightarrow> Inr (fst answer))
       \<and> world (snd r) = snd answer
       \<and> calls (snd r) = calls s @ [BaseResolveModuleNames names containingFile reusedNames
                                       redirectedReference options]
       \<and> (case normalizePath containingFile of
             Inl e \<Rightarrow> dependencies (snd r) = dependencies s
           | Inr p \<Rightarrow> True))"
  by (simp add: collection_wrapped[OF assms] Let_def split: sum.splits)

theorem recording_failure_propagates_witness:
  "resolveModuleNames exampleBatchedHost \<noteq> None
   \<and> fst (augmentHostWithDependencyCollection exampleTs normalizePathSpec exampleBatchedHost None
          [''pkg-a'', ''pkg-b''] ''/src/app.ts'' 0 0 0 exampleState)
     = Inr [Some \<lparr>resolvedFileName = ''/node_modules/pkg-a/index.d.ts''\<rparr>, None]
   \<and> calls (snd (augmentHostWithDependencyCollection exampleTs rejectingNormalizePath
                    exampleBatchedHost None [''pkg-a'', ''pkg-b''] ''/src/app.ts'' 0 0 0
                    exampleState))
     = [BaseResolveModuleNames [''pkg-a'', ''pkg-b''] ''/src/app.ts'' 0 0 0]"
proof -
  have batched: "resolveModuleNames exampleBatchedHost =
      Some (\<lambda>moduleNames containingFile reusedNames redirectedReference options w.
              (map exampleModule moduleNames, Suc w))"
    by (simp add: exampleBatchedHost_def)
  show ?thesis
    using recording_failure_propagates
            [where ts = exampleTs and normalizePath = normalizePathSpec
               and moduleResolutionCache = None and names = "[''pkg-a'', ''pkg-b'']"
               and containingFile = "''/src/app.ts''" and reusedNames = 0
               and redirectedReference = 0 and options = 0 and s = exampleState, OF batched]
          recording_failure_propagates
            [where ts = exampleTs and normalizePath = rejectingNormalizePath
               and moduleResolutionCache = None and names = "[''pkg-a'', ''pkg-b'']"
               and containingFile = "''/src/app.ts''" and reusedNames = 0
               and redirectedReference = 0 and options = 0 and s = exampleState, OF batched]
    by (simp add: run_defs example_defs normalizePathSpec_def rejectingNormalizePath_def)
qed

text \<open>
  With a normaliser that rejects the containing file, the answer of the resolver is
  withheld from the caller.
\<close>

theorem recording_failure_counterexample:
  "fst (the (resolveModuleNames exampleBatchedHost) [''pkg-a''] ''/src/app.ts'' 0 0 0 0)
     = [Some \<lparr>resolvedFileName = ''/node_modules/pkg-a/index.d.ts''\<rparr>]
   \<and> fst (augmentHostWithDependencyCollection exampleTs rejectingNormalizePath
            exampleBatchedHost None [''pkg-a''] ''/src/app.ts'' 0 0 0 exampleState)
     = Inl (NormalizePathError ''/src/app.ts'')"
  by (simp add: augmentHostWithDependencyCollection_def invoke_def exampleBatchedHost_def
      exampleState_def exampleModule_def rejectingNormalizePath_def)

text \<open>
  Claim C7, amended. A retrieval that is answered from the cache leaves the table as it
  is. A retrieval that calls the delegate, forced or not, stores the delegate's handle
  under the file name when there is one, over any previous entry, and leaves the table as
  it is when there is none. No entry is removed.
\<close>

theorem cache_entry_lifecycle:
  "cache (snd (augmentHostWithCaching host fileName languageVersion onError flag parameters s))
     = (if \<not> truthy flag \<and> cache s fileName \<noteq> None then cache s
        else (case fst (getSourceFile host fileName languageVersion onError (Some True)
                          parameters (world s)) of
                Some f \<Rightarrow> (cache s)(fileName \<mapsto> f)
              | None \<Rightarrow> cache s))
   \<and> dom (cache s)
       \<subseteq> dom (cache (snd (augmentHostWithCaching host fileName languageVersion onError flag
                             parameters s)))"
proof (cases "truthy flag \<or> cache s fileName = None")
  case True
  show ?thesis
    using True by (auto simp: caching_delegates[OF True] Let_def split: option.splits)
next
  case False
  then obtain f where "cache s fileName = Some f" and "\<not> truthy flag" by auto
  then show ?thesis by (simp add: caching_hit)
qed

theorem cache_entry_lifecycle_witness:
  "cache (snd (augmentHostWithCaching exampleBareHost ''/src/app.ts'' 0 0 None []
                 exampleState)) ''/src/app.ts'' = Some 42
   \<and> cache (snd (augmentHostWithCaching exampleBareHost ''/src/gone.ts'' 0 0 None []
                 exampleState)) ''/src/gone.ts'' = None
   \<and> cache (snd (augmentHostWithCaching exampleBareHost ''/src/app.ts'' 0 0 (Some True) []
                 (exampleState\<lparr>cache := [''/src/app.ts'' \<mapsto> 7]\<rparr>))) ''/src/app.ts''
       = Some 42"
  using cache_entry_lifecycle
          [where host = exampleBareHost and fileName = "''/src/app.ts''" and flag = None
             and languageVersion = 0 and onError = 0 and parameters = "[]"
             and s = exampleState]
  by (simp add: run_defs example_defs)

text \<open>
  A forced-fresh retrieval creates an entry.
\<close>

theorem cache_entry_lifecycle_counterexample:
  "cache exampleState ''/src/app.ts'' = None
   \<and> cache (snd (augmentHostWithCaching exampleBareHost ''/src/app.ts'' 0 0 (Some True) []
                   exampleState)) ''/src/app.ts'' = Some 42"
  by (simp add: augmentHostWithCaching_def invoke_def truthy_def exampleBareHost_def
      exampleState_def exampleSourceFile_def)




text \<open>
  Claim C9. Over a host with a resolver of its own for module names, the ngcc wrapper for
  module names calls that resolver once per name, with the batch of that one name and the
  other arguments as given, and makes no single-name lookup. The log it adds is, for each
  name in order, that call followed by the call of \<^verbatim>\<open>processModule\<close> that the
  post-processing makes when the first entry of the answer is present. It returns one
  result per name: entry \<open>i\<close> is the first entry of the resolver's answer for the batch of
  name \<open>i\<close>, absent when that answer is empty; and the world after name \<open>i\<close> is the one
  that the resolver left, post-processed: \<^verbatim>\<open>processModule\<close> is applied to it when the
  entry is present and there is a processor. The same holds, on its own, for type
  reference directives over a host with a resolver for them.
\<close>

theorem batched_resolver_degraded:
  fixes ts :: "('w, 'v) ts"
  shows
  "(resolveModuleNames host = Some base \<longrightarrow>
      (let run = fst (augmentHostWithNgcc ts host ngcc moduleResolutionCache);
           r = run names containingFile reusedNames redirectedReference options s
       in calls (snd r) =
            calls s @
            concat (map (\<lambda>(name, x).
                      BaseResolveModuleNames [name] containingFile reusedNames
                        redirectedReference options
                      # processCalls ngcc name (map_option Inl x))
                    (zip names (fst r)))
          \<and> filter isBaseResolve (calls (snd r)) =
              filter isBaseResolve (calls s) @
              map (\<lambda>name. BaseResolveModuleNames [name] containingFile reusedNames
                             redirectedReference options) names
          \<and> filter isSingleLookup (calls (snd r)) = filter isSingleLookup (calls s)
          \<and> length (fst r) = length names
          \<and> (\<forall>i < length names.
                (let answer = base [names ! i] containingFile reusedNames redirectedReference
                                options
                                (world (snd (run (take i names) containingFile reusedNames
                                               redirectedReference options s)))
                 in fst r ! i = firstResult (fst answer)
                    \<and> world (snd (run (take (Suc i) names) containingFile reusedNames
                                     redirectedReference options s)) =
                        (case firstResult (fst answer) of
                           None \<Rightarrow> snd answer
                         | Some m \<Rightarrow>
                             (case ngcc of
                                None \<Rightarrow> snd answer
                              | Some n \<Rightarrow> processModule n (names ! i) (Inl m) (snd answer)))))))
   \<and> (resolveTypeReferenceDirectives host = Some directives \<longrightarrow>
        (let run = snd (augmentHostWithNgcc ts host ngcc moduleResolutionCache);
             r = run names containingFile redirectedReference options s
         in calls (snd r) =
              calls s @
              concat (map (\<lambda>(name, x).
                        BaseResolveTypeReferenceDirectives [name] containingFile
                          redirectedReference options
                        # processCalls ngcc name (map_option Inr x))
                      (zip names (fst r)))
            \<and> filter isBaseResolve (calls (snd r)) =
                filter isBaseResolve (calls s) @
                map (\<lambda>name. BaseResolveTypeReferenceDirectives [name] containingFile
                               redirectedReference options) names
            \<and> filter isSingleLookup (calls (snd r)) = filter isSingleLookup (calls s)
            \<and> length (fst r) = length names
            \<and> (\<forall>i < length names.
                  (let answer = directives [names ! i] containingFile redirectedReference
                                  options
                                  (world (snd (run (take i names) containingFile
                                                 redirectedReference options s)))
                   in fst r ! i = firstResult (fst answer)
                      \<and> world (snd (run (take (Suc i) names) containingFile
                                       redirectedReference options s)) =
                          (case firstResult (fst answer) of
                             None \<Rightarrow> snd answer
                           | Some d \<Rightarrow>
                               (case ngcc of
                                  None \<Rightarrow> snd answer
                                | Some n \<Rightarrow>
                                    processModule n (names ! i) (Inr d) (snd answer)))))))"
proof (intro conjI impI)
  assume present: "resolveModuleNames host = Some base"
  let ?M = "fst (augmentHostWithNgcc ts host ngcc moduleResolutionCache)"
  have len: "length (fst (?M names containingFile reusedNames redirectedReference options s))
      = length names"
    by (rule ngcc_modules_run(1))
  have keep: "filter isBaseResolve
        (BaseResolveModuleNames [name] containingFile reusedNames redirectedReference options
         # processCalls ngcc name (map_option Inl x)) =
      [BaseResolveModuleNames [name] containingFile reusedNames redirectedReference options]"
    for name x
    by (simp add: filter_processCalls isBaseResolve_def)
  have look: "filter isSingleLookup
        (BaseResolveModuleNames [name] containingFile reusedNames redirectedReference options
         # processCalls ngcc name (map_option Inl x)) = []"
    for name x
    by (simp add: filter_processCalls isSingleLookup_def)
  have full: "calls (snd (?M names containingFile reusedNames redirectedReference options s)) =
      calls s @
      concat (map (\<lambda>(name, x).
                BaseResolveModuleNames [name] containingFile reusedNames
                  redirectedReference options
                # processCalls ngcc name (map_option Inl x))
              (zip names (fst (?M names containingFile reusedNames redirectedReference
                                 options s))))"
    by (simp only: ngcc_modules_run(3) present option.case)
  have bases: "filter isBaseResolve
        (calls (snd (?M names containingFile reusedNames redirectedReference options s))) =
      filter isBaseResolve (calls s) @
      map (\<lambda>name. BaseResolveModuleNames [name] containingFile reusedNames
                     redirectedReference options) names"
    by (simp only: full filter_append filter_concat_pairs keep concat_singletons_zip[OF len])
  have lookups: "filter isSingleLookup
        (calls (snd (?M names containingFile reusedNames redirectedReference options s))) =
      filter isSingleLookup (calls s)"
    by (simp only: full filter_append filter_concat_pairs look concat_empties append_Nil2)
  have entry: "fst (?M names containingFile reusedNames redirectedReference options s) ! i =
      firstResult (fst (base [names ! i] containingFile reusedNames redirectedReference options
        (world (snd (?M (take i names) containingFile reusedNames redirectedReference
                       options s)))))"
    if "i < length names" for i
    using that by (simp add: ngcc_modules_run(2) resolveOneModule_def present)
  have after: "world (snd (?M (take (Suc i) names) containingFile reusedNames
        redirectedReference options s)) =
      (case firstResult (fst (base [names ! i] containingFile reusedNames redirectedReference
              options (world (snd (?M (take i names) containingFile reusedNames
                redirectedReference options s))))) of
         None \<Rightarrow>
           snd (base [names ! i] containingFile reusedNames redirectedReference
              options (world (snd (?M (take i names) containingFile reusedNames
                redirectedReference options s))))
       | Some m \<Rightarrow>
           (case ngcc of
              None \<Rightarrow>
                snd (base [names ! i] containingFile reusedNames redirectedReference
                  options (world (snd (?M (take i names) containingFile reusedNames
                    redirectedReference options s))))
            | Some n \<Rightarrow>
                processModule n (names ! i) (Inl m)
                  (snd (base [names ! i] containingFile reusedNames redirectedReference
                    options (world (snd (?M (take i names) containingFile reusedNames
                      redirectedReference options s)))))))"
    if "i < length names" for i
    using that
    by (simp add: ngcc_modules_run(4) entry worldAfterModule_def present processedWorld_def
        split: option.splits)
  from full bases lookups len entry after
  show "let run = ?M;
           r = run names containingFile reusedNames redirectedReference options s
       in calls (snd r) =
            calls s @
            concat (map (\<lambda>(name, x).
                      BaseResolveModuleNames [name] containingFile reusedNames
                        redirectedReference options
                      # processCalls ngcc name (map_option Inl x))
                    (zip names (fst r)))
          \<and> filter isBaseResolve (calls (snd r)) =
              filter isBaseResolve (calls s) @
              map (\<lambda>name. BaseResolveModuleNames [name] containingFile reusedNames
                             redirectedReference options) names
          \<and> filter isSingleLookup (calls (snd r)) = filter isSingleLookup (calls s)
          \<and> length (fst r) = length names
          \<and> (\<forall>i < length names.
                (let answer = base [names ! i] containingFile reusedNames redirectedReference
                                options
                                (world (snd (run (take i names) containingFile reusedNames
                                               redirectedReference options s)))
                 in fst r ! i = firstResult (fst answer)
                    \<and> world (snd (run (take (Suc i) names) containingFile reusedNames
                                     redirectedReference options s)) =
                        (case firstResult (fst answer) of
                           None \<Rightarrow> snd answer
                         | Some m \<Rightarrow>
                             (case ngcc of
                                None \<Rightarrow> snd answer
                              | Some n \<Rightarrow> processModule n (names ! i) (Inl m) (snd answer)))))"
    unfolding Let_def by blast
next
  assume present: "resolveTypeReferenceDirectives host = Some directives"
  let ?D = "snd (augmentHostWithNgcc ts host ngcc moduleResolutionCache)"
  have len: "length (fst (?D names containingFile redirectedReference options s))
      = length names"
    by (rule ngcc_directives_run(1))
  have keep: "filter isBaseResolve
        (BaseResolveTypeReferenceDirectives [name] containingFile redirectedReference options
         # processCalls ngcc name (map_option Inr x)) =
      [BaseResolveTypeReferenceDirectives [name] containingFile redirectedReference options]"
    for name x
    by (simp add: filter_processCalls isBaseResolve_def)
  have look: "filter isSingleLookup
        (BaseResolveTypeReferenceDirectives [name] containingFile redirectedReference options
         # processCalls ngcc name (map_option Inr x)) = []"
    for name x
    by (simp add: filter_processCalls isSingleLookup_def)
  have full: "calls (snd (?D names containingFile redirectedReference options s)) =
      calls s @
      concat (map (\<lambda>(name, x).
                BaseResolveTypeReferenceDirectives [name] containingFile
                  redirectedReference options
                # processCalls ngcc name (map_option Inr x))
              (zip names (fst (?D names containingFile redirectedReference options s))))"
    by (simp only: ngcc_directives_run(3) present option.case)
  have bases: "filter isBaseResolve
        (calls (snd (?D names containingFile redirectedReference options s))) =
      filter isBaseResolve (calls s) @
      map (\<lambda>name. BaseResolveTypeReferenceDirectives [name] containingFile
                     redirectedReference options) names"
    by (simp only: full filter_append filter_concat_pairs keep concat_singletons_zip[OF len])
  have lookups: "filter isSingleLookup
        (calls (snd (?D names containingFile redirectedReference options s))) =
      filter isSingleLookup (calls s)"
    by (simp only: full filter_append filter_concat_pairs look concat_empties append_Nil2)
  have entry: "fst (?D names containingFile redirectedReference options s) ! i =
      firstResult (fst (directives [names ! i] containingFile redirectedReference options
        (world (snd (?D (take i names) containingFile redirectedReference options s)))))"
    if "i < length names" for i
    using that by (simp add: ngcc_directives_run(2) resolveOneDirective_def present)
  have after: "world (snd (?D (take (Suc i) names) containingFile redirectedReference
        options s)) =
      (case firstResult (fst (directives [names ! i] containingFile redirectedReference
              options (world (snd (?D (take i names) containingFile redirectedReference
                options s))))) of
         None \<Rightarrow>
           snd (directives [names ! i] containingFile redirectedReference
              options (world (snd (?D (take i names) containingFile redirectedReference
                options s))))
       | Some d \<Rightarrow>
           (case ngcc of
              None \<Rightarrow>
                snd (directives [names ! i] containingFile redirectedReference
                  options (world (snd (?D (take i names) containingFile redirectedReference
                    options s))))
            | Some n \<Rightarrow>
                processModule n (names ! i) (Inr d)
                  (snd (directives [names ! i] containingFile redirectedReference
                    options (world (snd (?D (take i names) containingFile redirectedReference
                      options s)))))))"
    if "i < length names" for i
    using that
    by (simp add: ngcc_directives_run(4) entry worldAfterDirective_def present
        processedWorld_def split: option.splits)
  from full bases lookups len entry after
  show "let run = ?D;
             r = run names containingFile redirectedReference options s
         in calls (snd r) =
              calls s @
              concat (map (\<lambda>(name, x).
                        BaseResolveTypeReferenceDirectives [name] containingFile
                          redirectedReference options
                        # processCalls ngcc name (map_option Inr x))
                      (zip names (fst r)))
            \<and> filter isBaseResolve (calls (snd r)) =
                filter isBaseResolve (calls s) @
                map (\<lambda>name. BaseResolveTypeReferenceDirectives [name] containingFile
                               redirectedReference options) names
            \<and> filter isSingleLookup (calls (snd r)) = filter isSingleLookup (calls s)
            \<and> length (fst r) = length names
            \<and> (\<forall>i < length names.
                  (let answer = directives [names ! i] containingFile redirectedReference
                                  options
                                  (world (snd (run (take i names) containingFile
                                                 redirectedReference options s)))
                   in fst r ! i = firstResult (fst answer)
                      \<and> world (snd (run (take (Suc i) names) containingFile
                                       redirectedReference options s)) =
                          (case firstResult (fst answer) of
                             None \<Rightarrow> snd answer
                           | Some d \<Rightarrow>
                               (case ngcc of
                                  None \<Rightarrow> snd answer
                                | Some n \<Rightarrow>
                                    processModule n (names ! i) (Inr d) (snd answer)))))"
    unfolding Let_def by blast
qed

theorem batched_resolver_degraded_witness:
  "resolveModuleNames exampleBatchedHost \<noteq> None
   \<and> resolveTypeReferenceDirectives exampleBatchedHost \<noteq> None
   \<and> calls (snd (fst (augmentHostWithNgcc exampleTs exampleBatchedHost (Some exampleNgcc) None)
                    [''pkg-a'', ''pkg-b''] ''/src/app.ts'' 0 0 0 exampleState))
     = [BaseResolveModuleNames [''pkg-a''] ''/src/app.ts'' 0 0 0,
        NgccProcessModule ''pkg-a''
          (Inl \<lparr>resolvedFileName = ''/node_modules/pkg-a/index.d.ts''\<rparr>),
        BaseResolveModuleNames [''pkg-b''] ''/src/app.ts'' 0 0 0]
   \<and> fst (fst (augmentHostWithNgcc exampleTs exampleBatchedHost (Some exampleNgcc) None)
             [''pkg-a'', ''pkg-b''] ''/src/app.ts'' 0 0 0 exampleState)
     = [Some \<lparr>resolvedFileName = ''/node_modules/pkg-a/index.d.ts''\<rparr>, None]
   \<and> world (snd (fst (augmentHostWithNgcc exampleTs exampleBatchedHost (Some exampleNgcc) None)
                    [''pkg-a'', ''pkg-b''] ''/src/app.ts'' 0 0 0 exampleState)) = 102
   \<and> calls (snd (snd (augmentHostWithNgcc exampleTs exampleBatchedHost (Some exampleNgcc) None)
                    [''node'', ''jest''] ''/src/app.ts'' 0 0 exampleState))
     = [BaseResolveTypeReferenceDirectives [''node''] ''/src/app.ts'' 0 0,
        NgccProcessModule ''node''
          (Inr \<lparr>primary = True,
                 directiveFileName = Some ''/node_modules/@types/node/index.d.ts''\<rparr>),
        BaseResolveTypeReferenceDirectives [''jest''] ''/src/app.ts'' 0 0]
   \<and> resolveModuleNames exampleShortHost \<noteq> None
   \<and> resolveTypeReferenceDirectives exampleShortHost = None
   \<and> calls (snd (fst (augmentHostWithNgcc exampleTs exampleShortHost (Some exampleNgcc) None)
                    [''pkg-a'', ''pkg-b''] ''/src/app.ts'' 0 0 0 exampleState))
     = [BaseResolveModuleNames [''pkg-a''] ''/src/app.ts'' 0 0 0,
        BaseResolveModuleNames [''pkg-b''] ''/src/app.ts'' 0 0 0]
   \<and> fst (fst (augmentHostWithNgcc exampleTs exampleShortHost (Some exampleNgcc) None)
             [''pkg-a'', ''pkg-b''] ''/src/app.ts'' 0 0 0 exampleState)
     = [None, None]"
proof -
  have modules: "resolveModuleNames exampleBatchedHost =
      Some (\<lambda>moduleNames containingFile reusedNames redirectedReference options w.
              (map exampleModule moduleNames, Suc w))"
    by (simp add: exampleBatchedHost_def)
  have directives: "resolveTypeReferenceDirectives exampleBatchedHost =
      Some (\<lambda>names containingFile redirectedReference options w.
              (map exampleDirective names, Suc w))"
    by (simp add: exampleBatchedHost_def)
  have short: "resolveModuleNames exampleShortHost =
      Some (\<lambda>moduleNames containingFile reusedNames redirectedReference options w.
              ([], Suc w))"
    by (simp add: exampleShortHost_def)
  note logA = batched_resolver_degraded
      [where ts = exampleTs and ngcc = "Some exampleNgcc" and moduleResolutionCache = None
         and names = "[''pkg-a'', ''pkg-b'']" and containingFile = "''/src/app.ts''"
         and reusedNames = 0 and redirectedReference = 0 and options = 0
         and s = exampleState and host = exampleBatchedHost
         and base = "\<lambda>moduleNames containingFile reusedNames redirectedReference options w.
                       (map exampleModule moduleNames, Suc w)",
       unfolded Let_def, THEN conjunct1, THEN mp, OF modules, THEN conjunct1]
  note logB = batched_resolver_degraded
      [where ts = exampleTs and ngcc = "Some exampleNgcc" and moduleResolutionCache = None
         and names = "[''node'', ''jest'']" and containingFile = "''/src/app.ts''"
         and reusedNames = 0 and redirectedReference = 0 and options = 0
         and s = exampleState and host = exampleBatchedHost
         and directives = "\<lambda>names containingFile redirectedReference options w.
                       (map exampleDirective names, Suc w)",
       unfolded Let_def, THEN conjunct2, THEN mp, OF directives, THEN conjunct1]
  note logC = batched_resolver_degraded
      [where ts = exampleTs and ngcc = "Some exampleNgcc" and moduleResolutionCache = None
         and names = "[''pkg-a'', ''pkg-b'']" and containingFile = "''/src/app.ts''"
         and reusedNames = 0 and redirectedReference = 0 and options = 0
         and s = exampleState and host = exampleShortHost
         and base = "\<lambda>moduleNames containingFile reusedNames redirectedReference options w.
                       ([], Suc w)",
       unfolded Let_def, THEN conjunct1, THEN mp, OF short, THEN conjunct1]
  show ?thesis
    using logA logB logC
    by (simp add: run_defs example_defs exampleShortHost_def processCalls_def)
qed

text \<open>
  Claim C10. With a cache entry for a file name, every retrieval of that name without the
  force-fresh flag returns the cached handle and leaves the state unchanged, whatever the
  language version, the error callback and the further parameters are. So two such calls,
  from the same state or one after the other, return the same handle.
\<close>

theorem cache_keyed_by_file_name:
  assumes "cache s fileName = Some f"
    and "\<not> truthy flagA" and "\<not> truthy flagB"
  shows "augmentHostWithCaching host fileName languageVersionA onErrorA flagA parametersA s
           = (Some f, s)
       \<and> augmentHostWithCaching host fileName languageVersionB onErrorB flagB parametersB s
           = (Some f, s)
       \<and> augmentHostWithCaching host fileName languageVersionB onErrorB flagB parametersB
           (snd (augmentHostWithCaching host fileName languageVersionA onErrorA flagA
                   parametersA s))
           = (Some f, s)"
  using assms by (simp add: caching_hit)

theorem cache_keyed_by_file_name_witness:
  "cache (exampleState\<lparr>cache := [''/src/app.ts'' \<mapsto> 7]\<rparr>) ''/src/app.ts'' = Some 7
   \<and> \<not> truthy None \<and> \<not> truthy (Some False)
   \<and> augmentHostWithCaching exampleBareHost ''/src/app.ts'' 5 0 None []
     (exampleState\<lparr>cache := [''/src/app.ts'' \<mapsto> 7]\<rparr>)
     = (Some 7, exampleState\<lparr>cache := [''/src/app.ts'' \<mapsto> 7]\<rparr>)
   \<and> augmentHostWithCaching exampleBareHost ''/src/app.ts'' 99 1 (Some False) [3]
     (exampleState\<lparr>cache := [''/src/app.ts'' \<mapsto> 7]\<rparr>)
     = (Some 7, exampleState\<lparr>cache := [''/src/app.ts'' \<mapsto> 7]\<rparr>)"
  using cache_keyed_by_file_name
    [where host = exampleBareHost and fileName = "''/src/app.ts''" and f = 7
       and s = "exampleState\<lparr>cache := [''/src/app.ts'' \<mapsto> 7]\<rparr>"
       and flagA = None and flagB = "Some False"
       and languageVersionA = 5 and onErrorA = 0 and parametersA = "[]"
       and languageVersionB = 99 and onErrorB = 1 and parametersB = "[3]"]
  by (simp add: truthy_def exampleState_def)

end
